theory Spec2Isabelle
  imports Complex_Main "HOL-Library.AList" "HOL-Library.Sublist"
begin

section \<open>Python values\<close>

text \<open>
  A Python \<open>str\<close> is a sequence of Unicode code points, and every operation of the
  plugin on strings (\<open>startswith\<close>, slicing, \<open>len\<close>, the \<open>re\<close> module) counts code
  points. A string is therefore a list of code points; \<open>ascii\<close> turns an ASCII literal
  into one. The fixed Chinese message texts of the source are spelled out by code point.
\<close>

type_synonym codepoint = nat
type_synonym ustr = "codepoint list"

definition ascii :: "string \<Rightarrow> ustr" where
  "ascii s = map of_char s"

text \<open>
  The values that configuration files, JSON bodies and platform commands hand to the
  plugin. A \<open>dict\<close> is an association list in insertion order with \<open>str\<close> keys; a
  \<open>float\<close> is represented by its exact rational value (infinities and NaN have no
  representation).
\<close>

datatype pyval =
    PNone
  | PBool bool
  | PInt int
  | PFloat rat
  | PStr ustr
  | PList "pyval list"
  | PDict "(ustr \<times> pyval) list"

type_synonym dict = "(ustr \<times> pyval) list"

text \<open>The exceptions the modelled code can meet. \<open>HTTPError code msg\<close> is the
  \<open>urllib.error.HTTPError\<close> with its status code and its message. \<open>Raised\<close> is any
  exception that comes out of an external collaborator or a library call, tagged by the
  collaborator.\<close>

datatype pyexn =
    AttributeError
  | TypeError
  | KeyError
  | IndexError
  | ValueError
  | HTTPError int ustr
  | Raised ustr

text \<open>Python truth value testing (\<open>if x:\<close>, \<open>not x\<close>, \<open>x and y\<close>).\<close>

fun truthy :: "pyval \<Rightarrow> bool" where
  "truthy PNone = False"
| "truthy (PBool b) = b"
| "truthy (PInt i) = (i \<noteq> 0)"
| "truthy (PFloat r) = (r \<noteq> 0)"
| "truthy (PStr s) = (s \<noteq> [])"
| "truthy (PList xs) = (xs \<noteq> [])"
| "truthy (PDict d) = (d \<noteq> [])"

text \<open>\<open>x == n\<close> for an integer literal \<open>n\<close>: numbers compare by value across
  \<open>bool\<close>, \<open>int\<close> and \<open>float\<close>; every other type is unequal to a number.\<close>

fun eq_int :: "pyval \<Rightarrow> int \<Rightarrow> bool" where
  "eq_int (PInt i) n = (i = n)"
| "eq_int (PBool b) n = ((if b then 1 else 0) = n)"
| "eq_int (PFloat r) n = (r = of_int n)"
| "eq_int _ n = False"

text \<open>\<open>d.get(k, default)\<close>, \<open>d[k] = v\<close> and \<open>k in d\<close> on a \<open>dict\<close>.\<close>

definition dict_get :: "dict \<Rightarrow> ustr \<Rightarrow> pyval \<Rightarrow> pyval" where
  "dict_get d k dflt = (case map_of d k of Some v \<Rightarrow> v | None \<Rightarrow> dflt)"

definition dict_set :: "dict \<Rightarrow> ustr \<Rightarrow> pyval \<Rightarrow> dict" where
  "dict_set d k v = AList.update k v d"

definition dict_has :: "dict \<Rightarrow> ustr \<Rightarrow> bool" where
  "dict_has d k = (map_of d k \<noteq> None)"

fun is_dict :: "pyval \<Rightarrow> bool" where
  "is_dict (PDict d) = True"
| "is_dict _ = False"

fun the_dict :: "pyval \<Rightarrow> dict" where
  "the_dict (PDict d) = d"
| "the_dict _ = []"

section \<open>Model configuration resolution (\<open>core/utils/model_utils.py\<close>)\<close>

text \<open>
  \<open>get_model_config(config_getter, model_id, default_model_id, log_prefix)\<close>.
  The getter is a callable \<open>(key, default) -> value\<close> of the host; it may raise, and
  nothing in \<open>get_model_config\<close> catches that. The logger calls have no influence on
  the value returned and are left out.
\<close>

type_synonym config_getter = "ustr \<Rightarrow> pyval \<Rightarrow> pyexn + pyval"

text \<open>The list \<open>fields\<close> of the source (the name \<open>fields\<close> is taken by records).\<close>

definition config_fields :: "ustr list" where
  "config_fields = map ascii
     [''name'', ''base_url'', ''api_key'', ''format'', ''model'',
      ''fixed_size_enabled'', ''default_size'', ''seed'',
      ''guidance_scale'', ''num_inference_steps'', ''watermark'',
      ''custom_prompt_add'', ''negative_prompt_add'', ''artist'',
      ''support_img2img'', ''auto_recall_delay'',
      ''cfg'', ''sampler'', ''nocache'', ''noise_schedule'',
      ''img2img_model_index'', ''image_upload_url'',
      ''default_width'', ''default_height'',
      ''safety_settings'']"

text \<open>The loop \<open>for field in fields\<close>, with \<open>assembled\<close> as accumulator.\<close>

fun assemble :: "config_getter \<Rightarrow> ustr \<Rightarrow> ustr list \<Rightarrow> dict \<Rightarrow> pyexn + dict" where
  "assemble config_getter model_id [] assembled = Inr assembled"
| "assemble config_getter model_id (field # rest) assembled =
     (case config_getter (ascii ''models.'' @ model_id @ ascii ''.'' @ field) PNone of
        Inl e \<Rightarrow> Inl e
      | Inr val \<Rightarrow>
          assemble config_getter model_id rest
            (if val \<noteq> PNone then dict_set assembled field val else assembled))"

definition get_model_config :: "config_getter \<Rightarrow> ustr \<Rightarrow> ustr \<Rightarrow> pyexn + pyval" where
  "get_model_config config_getter model_id default_model_id =
     (case config_getter (ascii ''models.'' @ model_id) PNone of
        Inl e \<Rightarrow> Inl e
      | Inr model_config \<Rightarrow>
          if is_dict model_config \<and>
             truthy (dict_get (the_dict model_config) (ascii ''base_url'') PNone)
          then Inr model_config
          else
            (case assemble config_getter model_id config_fields [] of
               Inl e \<Rightarrow> Inl e
             | Inr assembled \<Rightarrow>
                 if truthy (dict_get assembled (ascii ''base_url'') PNone)
                 then Inr (PDict assembled)
                 else if model_id \<noteq> default_model_id then
                   (case config_getter (ascii ''models.'' @ default_model_id) PNone of
                      Inl e \<Rightarrow> Inl e
                    | Inr fallback \<Rightarrow>
                        if is_dict fallback \<and>
                           truthy (dict_get (the_dict fallback) (ascii ''base_url'') PNone)
                        then Inr fallback
                        else Inr PNone)
                 else Inr PNone))"

subsection \<open>The three tiers as the specification words them\<close>

text \<open>A getter that returns a value on every call. The source passes \<open>None\<close> as the
  default on every call.\<close>

definition returning :: "(ustr \<Rightarrow> pyval \<Rightarrow> pyval) \<Rightarrow> config_getter" where
  "returning f = (\<lambda>key dflt. Inr (f key dflt))"

definition usable :: "pyval \<Rightarrow> bool" where
  "usable v = (case v of PDict d \<Rightarrow> truthy (dict_get d (ascii ''base_url'') PNone) | _ \<Rightarrow> False)"

definition tier_nested :: "(ustr \<Rightarrow> pyval \<Rightarrow> pyval) \<Rightarrow> ustr \<Rightarrow> pyval option" where
  "tier_nested f model_id =
     (let v = f (ascii ''models.'' @ model_id) PNone in if usable v then Some v else None)"

definition collected :: "(ustr \<Rightarrow> pyval \<Rightarrow> pyval) \<Rightarrow> ustr \<Rightarrow> dict" where
  "collected f model_id =
     filter (\<lambda>(field, val). val \<noteq> PNone)
       (map (\<lambda>field. (field, f (ascii ''models.'' @ model_id @ ascii ''.'' @ field) PNone))
          config_fields)"

definition tier_assembled :: "(ustr \<Rightarrow> pyval \<Rightarrow> pyval) \<Rightarrow> ustr \<Rightarrow> pyval option" where
  "tier_assembled f model_id =
     (let v = PDict (collected f model_id) in if usable v then Some v else None)"

definition tier_default :: "(ustr \<Rightarrow> pyval \<Rightarrow> pyval) \<Rightarrow> ustr \<Rightarrow> ustr \<Rightarrow> pyval option" where
  "tier_default f model_id default_model_id =
     (if model_id \<noteq> default_model_id then tier_nested f default_model_id else None)"

text \<open>First success wins; \<open>None\<close> of Python when every tier fails.\<close>

fun first_success :: "pyval option list \<Rightarrow> pyval" where
  "first_success [] = PNone"
| "first_success (Some v # rest) = v"
| "first_success (None # rest) = first_success rest"

subsection \<open>Derived configurations\<close>

text \<open>
  \<open>merge_negative_prompt\<close> and \<open>inject_llm_original_size\<close> either hand back the very dict
  object they were given or build a new one with \<open>dict(model_config)\<close>. To tell the two
  apart, dict objects live in a store: a reference is an index into the list of all dict
  objects, and \<open>dict(d)\<close> allocates the next index with the same items (a shallow copy:
  the items themselves are not copied).
\<close>

type_synonym ref = nat
type_synonym heap = "dict list"

definition dict_copy :: "heap \<Rightarrow> ref \<Rightarrow> ref \<times> heap" where
  "dict_copy h r = (length h, h @ [h ! r])"

definition heap_setitem :: "heap \<Rightarrow> ref \<Rightarrow> ustr \<Rightarrow> pyval \<Rightarrow> heap" where
  "heap_setitem h r k v = h[r := dict_set (h ! r) k v]"

text \<open>A replacement field \<open>{v}\<close> of an f-string: a \<open>str\<close> is inserted as it is; the
  text of any other value is what the built-in \<open>format\<close> gives, a parameter here.\<close>

fun fstr :: "(pyval \<Rightarrow> ustr) \<Rightarrow> pyval \<Rightarrow> ustr" where
  "fstr format_value (PStr s) = s"
| "fstr format_value v = format_value v"

definition merge_negative_prompt ::
  "(pyval \<Rightarrow> ustr) \<Rightarrow> heap \<Rightarrow> ref \<Rightarrow> ustr \<Rightarrow> ref \<times> heap" where
  "merge_negative_prompt format_value h model_config extra_negative =
     (if extra_negative = [] then (model_config, h)
      else
        (let (config, h1) = dict_copy h model_config;
             existing = dict_get (h1 ! config) (ascii ''negative_prompt_add'') (PStr [])
         in if truthy existing
            then (config, heap_setitem h1 config (ascii ''negative_prompt_add'')
                    (PStr (fstr format_value existing @ ascii '', '' @ extra_negative)))
            else (config, heap_setitem h1 config (ascii ''negative_prompt_add'')
                    (PStr extra_negative))))"

definition inject_llm_original_size :: "heap \<Rightarrow> ref \<Rightarrow> ustr \<Rightarrow> ref \<times> heap" where
  "inject_llm_original_size h model_config llm_original_size =
     (let api_format = dict_get (h ! model_config) (ascii ''format'') (PStr (ascii ''openai''))
      in if (api_format = PStr (ascii ''gemini'') \<or> api_format = PStr (ascii ''zai''))
            \<and> llm_original_size \<noteq> []
         then
           (let (config, h1) = dict_copy h model_config
            in (config, heap_setitem h1 config (ascii ''_llm_original_size'')
                  (PStr llm_original_size)))
         else (model_config, h))"

text \<open>The value that a merge stores under \<open>negative_prompt_add\<close>.\<close>

definition merged_value :: "(pyval \<Rightarrow> ustr) \<Rightarrow> dict \<Rightarrow> ustr \<Rightarrow> pyval" where
  "merged_value format_value d extra =
     (let existing = dict_get d (ascii ''negative_prompt_add'') (PStr [])
      in if truthy existing then PStr (fstr format_value existing @ ascii '', '' @ extra)
         else PStr extra)"

section \<open>Image data resolution (\<open>core/utils/image_send_utils.py\<close>)\<close>


text \<open>\<open>s.startswith(prefixes)\<close> with a tuple of prefixes.\<close>

definition startswith :: "ustr \<Rightarrow> ustr list \<Rightarrow> bool" where
  "startswith s ps = list_ex (\<lambda>p. prefix p s) ps"





section \<open>Automatic recall (\<open>core/utils/recall_utils.py\<close>)\<close>

text \<open>
  \<open>schedule_auto_recall(chat_id, delay_seconds, log_prefix, send_command_fn)\<close> creates
  the task \<open>_recall_task\<close>. The task awaits three kinds of things: \<open>asyncio.sleep\<close>, the
  message store and the command function of the caller. An awaited call returns, raises
  an exception, or the task is cancelled while it waits (\<open>asyncio.CancelledError\<close>, which
  is not an \<open>Exception\<close>).
\<close>

datatype 'a outcome = Returns 'a | Raises pyexn | Cancelled

text \<open>
  The collaborators of the task, acting on an outside world \<open>'w\<close>. The message store
  answers the query of the task (chat id; the window of the last 10 seconds, at most 5
  messages, latest first, is fixed in the source) with the messages as pairs
  \<open>(str(msg.user_info.user_id), str(msg.message_id))\<close>. \<open>is_digit\<close> is the Unicode digit
  property that \<open>str.isdigit\<close> tests on each code point.
\<close>

record 'w recall_env =
  sleep :: "int \<Rightarrow> 'w \<Rightarrow> unit outcome \<times> 'w"
  get_messages_by_time_in_chat :: "ustr \<Rightarrow> 'w \<Rightarrow> (ustr \<times> ustr) list outcome \<times> 'w"
  bot_qq_account :: ustr
  send_command_fn :: "ustr \<Rightarrow> dict \<Rightarrow> bool \<Rightarrow> 'w \<Rightarrow> pyval outcome \<times> 'w"
  is_digit :: "codepoint \<Rightarrow> bool"

text \<open>What the task writes to the log.\<close>

datatype log_event =
    LogSkippedId ustr
  | LogNoValidId
  | LogScheduled int ustr
  | LogRecalled ustr ustr
  | LogCommandFailed ustr pyexn
  | LogRecallFailed ustr
  | LogCancelled
  | LogError pyexn

definition isdigit :: "(codepoint \<Rightarrow> bool) \<Rightarrow> ustr \<Rightarrow> bool" where
  "isdigit digit s = (s \<noteq> [] \<and> list_all digit s)"

text \<open>The loop \<open>for msg in messages\<close>: the first message of the bot with a numeric id.\<close>

fun find_target ::
  "(codepoint \<Rightarrow> bool) \<Rightarrow> ustr \<Rightarrow> (ustr \<times> ustr) list \<Rightarrow> log_event list \<times> ustr option" where
  "find_target digit bot_id [] = ([], None)"
| "find_target digit bot_id ((user_id, mid) # msgs) =
     (if user_id = bot_id then
        (if isdigit digit mid then ([], Some mid)
         else (case find_target digit bot_id msgs of
                 (logs, r) \<Rightarrow> (LogSkippedId mid # logs, r)))
      else find_target digit bot_id msgs)"

definition DELETE_COMMAND_CANDIDATES :: "ustr list" where
  "DELETE_COMMAND_CANDIDATES =
     map ascii [''DELETE_MSG'', ''delete_msg'', ''RECALL_MSG'', ''recall_msg'']"

text \<open>
  \<open>str(v).lower()\<close> compared with the words \<open>ok\<close> and \<open>success\<close>. \<open>lower_cp\<close> is
  \<open>str.lower\<close> on the code points whose lower case is an ASCII letter (the capital
  letters and the Kelvin sign); no other code point lowers to a letter of the two words,
  so the comparison comes out as in Python. For a value that is not a \<open>str\<close>, \<open>str(v)\<close>
  is \<open>None\<close>, \<open>True\<close>, \<open>False\<close>, a numeral, or starts with a bracket or a brace, and is
  neither word.
\<close>

definition lower_cp :: "codepoint \<Rightarrow> codepoint" where
  "lower_cp c = (if 0x41 \<le> c \<and> c \<le> 0x5A then c + 32 else if c = 0x212A then 0x6B else c)"

fun status_ok :: "pyval \<Rightarrow> bool" where
  "status_ok (PStr s) = (map lower_cp s = ascii ''ok'' \<or> map lower_cp s = ascii ''success'')"
| "status_ok _ = False"

text \<open>The test on the result of a command, lines 87 to 99.\<close>

fun indicates_success :: "pyval \<Rightarrow> bool" where
  "indicates_success (PBool b) = b"
| "indicates_success (PDict result) =
     (status_ok (dict_get result (ascii ''status'') (PStr []))
      \<or> eq_int (dict_get result (ascii ''retcode'') PNone) 0
      \<or> eq_int (dict_get result (ascii ''code'') PNone) 0)"
| "indicates_success _ = False"

text \<open>
  The loop \<open>for cmd in DELETE_COMMAND_CANDIDATES\<close>. It ends with \<open>recall_success\<close>, or
  with the cancellation that no handler inside the loop catches.
\<close>

fun try_commands ::
  "'w recall_env \<Rightarrow> ustr list \<Rightarrow> ustr \<Rightarrow> 'w \<Rightarrow> bool outcome \<times> log_event list \<times> 'w" where
  "try_commands env [] target_message_id w = (Returns False, [], w)"
| "try_commands env (cmd # rest) target_message_id w =
     (case send_command_fn env cmd [(ascii ''message_id'', PStr target_message_id)] False w of
        (Returns result, w') \<Rightarrow>
          if indicates_success result
          then (Returns True, [LogRecalled cmd target_message_id], w')
          else try_commands env rest target_message_id w'
      | (Raises e, w') \<Rightarrow>
          (case try_commands env rest target_message_id w' of
             (r, logs, w'') \<Rightarrow> (r, LogCommandFailed cmd e # logs, w''))
      | (Cancelled, w') \<Rightarrow> (Cancelled, [], w'))"

text \<open>The handlers of the outer \<open>try\<close>.\<close>

fun handlers :: "'a outcome \<Rightarrow> log_event list" where
  "handlers (Returns x) = []"
| "handlers (Raises e) = [LogError e]"
| "handlers Cancelled = [LogCancelled]"

definition recall_task :: "'w recall_env \<Rightarrow> ustr \<Rightarrow> int \<Rightarrow> 'w \<Rightarrow> log_event list \<times> 'w" where
  "recall_task env chat_id delay_seconds w =
     (case sleep env 4 w of
        (Returns u, w1) \<Rightarrow>
          (case get_messages_by_time_in_chat env chat_id w1 of
             (Returns messages, w2) \<Rightarrow>
               (case find_target (is_digit env) (bot_qq_account env) messages of
                  (logs, None) \<Rightarrow> (logs @ [LogNoValidId], w2)
                | (logs, Some target_message_id) \<Rightarrow>
                    (case sleep env delay_seconds w2 of
                       (Returns u', w3) \<Rightarrow>
                         (case try_commands env DELETE_COMMAND_CANDIDATES target_message_id w3 of
                            (Returns recall_success, clogs, w4) \<Rightarrow>
                              (logs @ [LogScheduled delay_seconds target_message_id] @ clogs @
                                 (if \<not> recall_success then [LogRecallFailed target_message_id]
                                  else []), w4)
                          | (r, clogs, w4) \<Rightarrow>
                              (logs @ [LogScheduled delay_seconds target_message_id] @ clogs @
                                 handlers r, w4))
                     | (r, w3) \<Rightarrow>
                         (logs @ [LogScheduled delay_seconds target_message_id] @ handlers r, w3)))
           | (r, w2) \<Rightarrow> (handlers r, w2))
      | (r, w1) \<Rightarrow> (handlers r, w1))"

text \<open>
  An observer for the command function: the world is paired with the list of the commands
  sent so far, each with its outcome.
\<close>

type_synonym trace = "(ustr \<times> pyval outcome) list"

definition recording :: "'w recall_env \<Rightarrow> ('w \<times> trace) recall_env" where
  "recording env =
     \<lparr> sleep = (\<lambda>d (w, t). case sleep env d w of (r, w') \<Rightarrow> (r, (w', t))),
       get_messages_by_time_in_chat =
         (\<lambda>c (w, t). case get_messages_by_time_in_chat env c w of (r, w') \<Rightarrow> (r, (w', t))),
       bot_qq_account = bot_qq_account env,
       send_command_fn =
         (\<lambda>cmd args st (w, t). case send_command_fn env cmd args st w of
            (r, w') \<Rightarrow> (r, (w', t @ [(cmd, r)]))),
       is_digit = is_digit env \<rparr>"

text \<open>
  Success as the specification words it, stated without the test of the source: the result
  is the boolean true, or it is a dict whose \<open>status\<close> is \<open>ok\<close> or \<open>success\<close> (in any
  case of the letters), or whose \<open>retcode\<close> or \<open>code\<close> is there and equals 0.
\<close>

definition has_status :: "dict \<Rightarrow> ustr \<Rightarrow> bool" where
  "has_status d word =
     (case map_of d (ascii ''status'') of
        Some (PStr s) \<Rightarrow> map lower_cp s = word
      | _ \<Rightarrow> False)"

definition has_zero :: "dict \<Rightarrow> ustr \<Rightarrow> bool" where
  "has_zero d key = (case map_of d key of Some v \<Rightarrow> eq_int v 0 | None \<Rightarrow> False)"

definition reports_success :: "pyval \<Rightarrow> bool" where
  "reports_success v =
     (case v of
        PBool b \<Rightarrow> b
      | PDict d \<Rightarrow>
          has_status d (ascii ''ok'') \<or> has_status d (ascii ''success'') \<or>
          has_zero d (ascii ''retcode'') \<or> has_zero d (ascii ''code'')
      | _ \<Rightarrow> False)"

fun succeeded :: "pyval outcome \<Rightarrow> bool" where
  "succeeded (Returns v) = reports_success v"
| "succeeded _ = False"

text \<open>A command that failed: it returned something that reports no success, or it
  raised.\<close>

fun failed :: "pyval outcome \<Rightarrow> bool" where
  "failed (Returns v) = (\<not> reports_success v)"
| "failed (Raises e) = True"
| "failed Cancelled = False"

section \<open>Regular expressions as the five patterns use them\<close>

text \<open>
  The five patterns of \<open>_extract_image_from_response\<close> use literals, character classes,
  repetition of a single character class (greedy or lazy, with bounds), alternation, one
  capturing group each, and the negative look-behind and look-ahead for one character.
  \<open>regex\<close> has these forms and no others. The matcher follows the backtracking search of
  the \<open>re\<close> module: \<open>matches r st\<close> lists every way to match \<open>r\<close> at a position in the
  order in which the search tries them, so that the head of the list is the match that
  \<open>re\<close> reports at that position.

  A position in the subject is a pair of the text before it, reversed, and the text after
  it; the third component is the text of group 1, once the group has matched.
\<close>

datatype 'a regex =
    Eps
  | Sat "'a \<Rightarrow> bool"
  | Rep nat "nat option" "'a \<Rightarrow> bool"
  | RepLazy nat "nat option" "'a \<Rightarrow> bool"
  | Seq "'a regex" "'a regex"
  | Alt "'a regex" "'a regex"
  | Group "'a regex"
  | NotBehind "'a \<Rightarrow> bool"
  | NotAhead "'a \<Rightarrow> bool"

type_synonym 'a mstate = "'a list \<times> 'a list \<times> 'a list option"

text \<open>How many repetitions \<open>x{m,n}\<close> can take at most: the characters of the class that
  follow, capped by the upper bound.\<close>

definition rep_max :: "nat option \<Rightarrow> ('a \<Rightarrow> bool) \<Rightarrow> 'a list \<Rightarrow> nat" where
  "rep_max mx P a =
     (let avail = length (takeWhile P a)
      in case mx of None \<Rightarrow> avail | Some n \<Rightarrow> min n avail)"

definition advance :: "'a mstate \<Rightarrow> nat \<Rightarrow> 'a mstate" where
  "advance st k = (case st of (b, a, g) \<Rightarrow> (rev (take k a) @ b, drop k a, g))"

fun matches :: "'a regex \<Rightarrow> 'a mstate \<Rightarrow> 'a mstate list" where
  "matches Eps st = [st]"
| "matches (Sat P) (b, a, g) =
     (case a of [] \<Rightarrow> [] | c # a' \<Rightarrow> if P c then [(c # b, a', g)] else [])"
| "matches (Rep m mx P) (b, a, g) =
     map (advance (b, a, g)) (rev [m ..< Suc (rep_max mx P a)])"
| "matches (RepLazy m mx P) (b, a, g) =
     map (advance (b, a, g)) [m ..< Suc (rep_max mx P a)]"
| "matches (Seq r s) st = concat (map (matches s) (matches r st))"
| "matches (Alt r s) st = matches r st @ matches s st"
| "matches (Group r) (b, a, g) =
     map (\<lambda>(b', a', g'). (b', a', Some (rev (take (length b' - length b) b'))))
       (matches r (b, a, g))"
| "matches (NotBehind P) (b, a, g) =
     (case b of [] \<Rightarrow> [(b, a, g)] | c # b' \<Rightarrow> if P c then [] else [(b, a, g)])"
| "matches (NotAhead P) (b, a, g) =
     (case a of [] \<Rightarrow> [(b, a, g)] | c # a' \<Rightarrow> if P c then [] else [(b, a, g)])"

text \<open>
  \<open>re.findall\<close> for a pattern with one group: scan from left to right, at each position
  take the first match if there is one, report the text of the group, and go on behind the
  match. (None of the five patterns can match the empty string; after an empty match the
  scan moves on by one character.)
\<close>

function findall :: "'a regex \<Rightarrow> 'a list \<Rightarrow> 'a list \<Rightarrow> 'a list list" where
  "findall r b a =
     (case matches r (b, a, None) of
        (b', a', g) # others \<Rightarrow>
          (case g of Some t \<Rightarrow> t | None \<Rightarrow> []) #
            (if length a' < length a then findall r b' a'
             else (case a of [] \<Rightarrow> [] | c # cs \<Rightarrow> findall r (c # b) cs))
      | [] \<Rightarrow> (case a of [] \<Rightarrow> [] | c # cs \<Rightarrow> findall r (c # b) cs))"
  by pat_completeness auto
termination
  by (relation "measure (\<lambda>(r, b, a). length a)") auto

definition re_findall :: "'a regex \<Rightarrow> 'a list \<Rightarrow> 'a list list" where
  "re_findall r s = findall r [] s"

text \<open>A literal, and a literal under \<open>re.IGNORECASE\<close>.\<close>

fun lit :: "'a list \<Rightarrow> 'a regex" where
  "lit [] = Eps"
| "lit (c # cs) = Seq (Sat (\<lambda>x. x = c)) (lit cs)"

text \<open>
  Under \<open>re.IGNORECASE\<close> a small ASCII letter of a \<open>str\<close> pattern matches itself, its
  capital, and what the Unicode tables of \<open>re\<close> add to that: the dotted capital and the
  dotless small i (U+0130, U+0131) for \<open>i\<close>, the long s (U+017F) for \<open>s\<close>, and the
  Kelvin sign (U+212A) for \<open>k\<close>. Characters without case match themselves.
\<close>

definition ci :: "codepoint \<Rightarrow> codepoint \<Rightarrow> bool" where
  "ci p x =
     (x = p \<or> (0x61 \<le> p \<and> p \<le> 0x7A \<and> x + 32 = p)
      \<or> (p = 0x69 \<and> (x = 0x130 \<or> x = 0x131))
      \<or> (p = 0x73 \<and> x = 0x17F)
      \<or> (p = 0x6B \<and> x = 0x212A))"

fun lit_ci :: "ustr \<Rightarrow> codepoint regex" where
  "lit_ci [] = Eps"
| "lit_ci (c # cs) = Seq (Sat (ci c)) (lit_ci cs)"

text \<open>The character classes. \<open>\s\<close> on a \<open>str\<close> is Unicode white space.\<close>

definition is_space :: "codepoint \<Rightarrow> bool" where
  "is_space c =
     ((0x09 \<le> c \<and> c \<le> 0x0D) \<or> (0x1C \<le> c \<and> c \<le> 0x20) \<or> c = 0x85 \<or> c = 0xA0
      \<or> c = 0x1680 \<or> (0x2000 \<le> c \<and> c \<le> 0x200A) \<or> c = 0x2028 \<or> c = 0x2029
      \<or> c = 0x202F \<or> c = 0x205F \<or> c = 0x3000)"

definition is_alpha :: "codepoint \<Rightarrow> bool" where
  "is_alpha c = ((0x41 \<le> c \<and> c \<le> 0x5A) \<or> (0x61 \<le> c \<and> c \<le> 0x7A))"

definition is_b64 :: "codepoint \<Rightarrow> bool" where
  "is_b64 c = (is_alpha c \<or> (0x30 \<le> c \<and> c \<le> 0x39) \<or> c = 0x2B \<or> c = 0x2F)"

definition is_dot :: "codepoint \<Rightarrow> bool" where
  "is_dot c = (c \<noteq> 0x0A)"

definition md_url_char :: "codepoint \<Rightarrow> bool" where
  "md_url_char c = (\<not> is_space c \<and> c \<noteq> 0x29)"

definition is_b64_or_eq :: "codepoint \<Rightarrow> bool" where
  "is_b64_or_eq c = (is_b64 c \<or> c = 0x3D)"

definition url_char :: "codepoint \<Rightarrow> bool" where
  "url_char c = (\<not> is_space c \<and> c \<noteq> 0x3C \<and> c \<noteq> 0x3E \<and> c \<noteq> 0x22 \<and> c \<noteq> 0x27)"

text \<open>\<open>!\[.*?\]\((https?://[^\s\)]+)\)\<close>\<close>

definition md_pattern :: "codepoint regex" where
  "md_pattern =
     Seq (lit (ascii ''!['')) (Seq (RepLazy 0 None is_dot) (Seq (lit (ascii ''](''))
       (Seq (Group (Seq (lit (ascii ''http'')) (Seq (Rep 0 (Some 1) (\<lambda>x. x = 0x73))
               (Seq (lit (ascii ''://'')) (Rep 1 None md_url_char)))))
          (lit (ascii '')'')))))"

text \<open>\<open>data:image/[a-zA-Z]+;base64,([A-Za-z0-9+/=]+)\<close>\<close>

definition data_uri_pattern :: "codepoint regex" where
  "data_uri_pattern =
     Seq (lit (ascii ''data:image/'')) (Seq (Rep 1 None is_alpha) (Seq (lit (ascii '';base64,''))
       (Group (Rep 1 None is_b64_or_eq))))"

text \<open>\<open>(?<![A-Za-z0-9+/])([A-Za-z0-9+/]{200,}={0,2})(?![A-Za-z0-9+/])\<close>\<close>

definition b64_pattern :: "codepoint regex" where
  "b64_pattern =
     Seq (NotBehind is_b64)
       (Seq (Group (Seq (Rep 200 None is_b64) (Rep 0 (Some 2) (\<lambda>x. x = 0x3D))))
          (NotAhead is_b64))"

text \<open>\<open>(https?://[^\s<>"\']+\.(?:png|jpg|jpeg|gif|webp|bmp)(?:\?[^\s<>"\']*)?)\<close> with
  \<open>re.IGNORECASE\<close>\<close>

definition url_pattern :: "codepoint regex" where
  "url_pattern =
     Group (Seq (lit_ci (ascii ''http'')) (Seq (Rep 0 (Some 1) (ci 0x73))
       (Seq (lit (ascii ''://'')) (Seq (Rep 1 None url_char) (Seq (lit (ascii ''.''))
         (Seq (Alt (lit_ci (ascii ''png'')) (Alt (lit_ci (ascii ''jpg''))
                (Alt (lit_ci (ascii ''jpeg'')) (Alt (lit_ci (ascii ''gif''))
                  (Alt (lit_ci (ascii ''webp'')) (lit_ci (ascii ''bmp'')))))))
            (Alt (Seq (lit (ascii ''?'')) (Rep 0 None url_char)) Eps)))))))"

text \<open>\<open>(https?://[^\s<>"\']+)\<close>\<close>

definition any_url_pattern :: "codepoint regex" where
  "any_url_pattern =
     Group (Seq (lit (ascii ''http'')) (Seq (Rep 0 (Some 1) (\<lambda>x. x = 0x73))
       (Seq (lit (ascii ''://'')) (Rep 1 None url_char))))"

text \<open>The group of the Markdown pattern on \<open>http(s)://body)\<close>.\<close>

definition md_group :: "codepoint regex" where
  "md_group = Seq (lit (ascii ''http'')) (Seq (Rep 0 (Some 1) (\<lambda>x. x = 0x73))
               (Seq (lit (ascii ''://'')) (Rep 1 None md_url_char)))"

section \<open>Extraction of the image from a reply (\<open>core/api_clients/openai_chat_client.py\<close>)\<close>

definition MSG_NO_CONTENT :: ustr where
  "MSG_NO_CONTENT = ascii ''Chat API'' @ [0x54CD, 0x5E94, 0x4E2D, 0x65E0, 0x5185, 0x5BB9]"

definition MSG_CANNOT_EXTRACT :: ustr where
  "MSG_CANNOT_EXTRACT =
     [0x65E0, 0x6CD5, 0x4ECE] @ ascii '' Chat API '' @
     [0x54CD, 0x5E94, 0x4E2D, 0x63D0, 0x53D6, 0x56FE, 0x7247, 0x6570, 0x636E]"

text \<open>The signature prefixes as line 226 lists them.\<close>

definition B64_SIGNATURES :: "ustr list" where
  "B64_SIGNATURES = map ascii [''/9j/'', ''iVBORw'', ''UklGR'', ''R0lGOD'']"

text \<open>\<open>max(xs, key=len)\<close> on a non-empty list: the first element of the greatest length.\<close>

fun max_by_len :: "'a list \<Rightarrow> 'a list list \<Rightarrow> 'a list" where
  "max_by_len best [] = best"
| "max_by_len best (x # xs) = max_by_len (if length best < length x then x else best) xs"

text \<open>Strategies 4 and 5, and the failure at the end.\<close>

definition extract_url :: "ustr \<Rightarrow> bool \<times> ustr" where
  "extract_url content =
     (let url_matches = re_findall url_pattern content in
      if url_matches \<noteq> [] then (True, hd url_matches)
      else
        (let any_url_matches = re_findall any_url_pattern content in
         if any_url_matches \<noteq> [] then (True, hd any_url_matches)
         else (False, MSG_CANNOT_EXTRACT)))"

text \<open>Lines 203 to 248: the five strategies on a non-empty \<open>str\<close>.\<close>

definition extract_from_content :: "ustr \<Rightarrow> bool \<times> ustr" where
  "extract_from_content content =
     (let md_matches = re_findall md_pattern content in
      if md_matches \<noteq> [] then (True, hd md_matches)
      else
        (let data_uri_matches = re_findall data_uri_pattern content in
         if data_uri_matches \<noteq> [] then (True, hd data_uri_matches)
         else
           (case re_findall b64_pattern content of
              [] \<Rightarrow> extract_url content
            | m # ms \<Rightarrow>
                (let longest = max_by_len m ms in
                 if startswith longest B64_SIGNATURES \<or> 1000 < length longest
                 then (True, longest)
                 else extract_url content))))"

text \<open>
  \<open>x.get(key, default)\<close> and \<open>x[0]\<close> on a value of any type. A \<open>dict\<close> of JSON has
  \<open>str\<close> keys, so \<open>d[0]\<close> is a \<open>KeyError\<close>.
\<close>

fun py_get :: "pyval \<Rightarrow> ustr \<Rightarrow> pyval \<Rightarrow> pyexn + pyval" where
  "py_get (PDict d) k dflt = Inr (dict_get d k dflt)"
| "py_get _ k dflt = Inl AttributeError"

fun subscript0 :: "pyval \<Rightarrow> pyexn + pyval" where
  "subscript0 (PList []) = Inl IndexError"
| "subscript0 (PList (x # xs)) = Inr x"
| "subscript0 (PStr []) = Inl IndexError"
| "subscript0 (PStr (c # cs)) = Inr (PStr [c])"
| "subscript0 (PDict d) = Inl KeyError"
| "subscript0 _ = Inl TypeError"

text \<open>Lines 188 to 195. \<open>except (IndexError, KeyError, TypeError): pass\<close> leaves
  \<open>content\<close> empty; any other exception leaves the function.\<close>

definition caught :: "pyexn \<Rightarrow> pyexn + pyval" where
  "caught e = (if e = IndexError \<or> e = KeyError \<or> e = TypeError then Inr (PStr []) else Inl e)"

definition reply_content :: "pyval \<Rightarrow> pyexn + pyval" where
  "reply_content response_data =
     (case py_get response_data (ascii ''choices'') (PList []) of
        Inl e \<Rightarrow> caught e
      | Inr choices \<Rightarrow>
          if truthy choices then
            (case subscript0 choices of
               Inl e \<Rightarrow> caught e
             | Inr choice \<Rightarrow>
                 (case py_get choice (ascii ''message'') (PDict []) of
                    Inl e \<Rightarrow> caught e
                  | Inr message \<Rightarrow>
                      (case py_get message (ascii ''content'') (PStr []) of
                         Inl e \<Rightarrow> caught e
                       | Inr content \<Rightarrow> Inr content)))
          else Inr (PStr []))"

text \<open>\<open>_extract_image_from_response(response_data)\<close>. \<open>re.findall\<close> on a value that is
  not a \<open>str\<close> is a \<open>TypeError\<close>, outside the \<open>try\<close>.\<close>

definition extract_image_from_response :: "pyval \<Rightarrow> pyexn + bool \<times> ustr" where
  "extract_image_from_response response_data =
     (case reply_content response_data of
        Inl e \<Rightarrow> Inl e
      | Inr content \<Rightarrow>
          if \<not> truthy content then Inr (False, MSG_NO_CONTENT)
          else (case content of
                  PStr s \<Rightarrow> Inr (extract_from_content s)
                | _ \<Rightarrow> Inl TypeError))"

subsection \<open>The strategies as the specification words them\<close>

definition first_url :: "codepoint regex \<Rightarrow> ustr \<Rightarrow> ustr option" where
  "first_url r content = (case re_findall r content of [] \<Rightarrow> None | u # us \<Rightarrow> Some u)"

definition b64_accepted :: "ustr \<Rightarrow> bool" where
  "b64_accepted run = (startswith run B64_SIGNATURES \<or> 1000 < length run)"

definition strategy_b64 :: "ustr \<Rightarrow> ustr option" where
  "strategy_b64 content =
     (case re_findall b64_pattern content of
        [] \<Rightarrow> None
      | m # ms \<Rightarrow> if b64_accepted (max_by_len m ms) then Some (max_by_len m ms) else None)"

text \<open>First match wins; the results of the strategies are never combined.\<close>

fun first_match :: "ustr option list \<Rightarrow> bool \<times> ustr" where
  "first_match [] = (False, MSG_CANNOT_EXTRACT)"
| "first_match (Some payload # rest) = (True, payload)"
| "first_match (None # rest) = first_match rest"

text \<open>A reply whose first choice carries the given text.\<close>

definition reply_with :: "ustr \<Rightarrow> pyval" where
  "reply_with content =
     PDict [(ascii ''choices'',
       PList [PDict [(ascii ''message'', PDict [(ascii ''content'', PStr content)])]])]"

subsection \<open>The base64 heuristic as the specification words it\<close>



section \<open>The request (\<open>_make_request\<close> of \<open>core/api_clients/openai_chat_client.py\<close>)\<close>

text \<open>\<open>str(n)\<close> for an \<open>int\<close>, \<open>s.rstrip(c)\<close>, and \<open>x[key]\<close> with a \<open>str\<close> key.\<close>

fun digits :: "nat \<Rightarrow> ustr" where
  "digits n = (if n < 10 then [0x30 + n] else digits (n div 10) @ [0x30 + n mod 10])"

declare digits.simps [simp del]

definition str_int :: "int \<Rightarrow> ustr" where
  "str_int i = (if i < 0 then 0x2D # digits (nat (- i)) else digits (nat i))"

definition rstrip :: "codepoint \<Rightarrow> ustr \<Rightarrow> ustr" where
  "rstrip c s = rev (dropWhile (\<lambda>x. x = c) (rev s))"

fun py_getitem :: "pyval \<Rightarrow> ustr \<Rightarrow> pyexn + pyval" where
  "py_getitem (PDict d) k = (case map_of d k of Some v \<Rightarrow> Inr v | None \<Rightarrow> Inl KeyError)"
| "py_getitem _ k = Inl TypeError"

definition MSG_REQUEST_FAILED :: ustr where
  "MSG_REQUEST_FAILED =
     ascii ''Chat API'' @ [0x8BF7, 0x6C42, 0x5931, 0x8D25] @ ascii ''('' @
     [0x72B6, 0x6001, 0x7801] @ ascii '' ''"

definition MSG_REQUEST_EXCEPTION :: ustr where
  "MSG_REQUEST_EXCEPTION = ascii ''Chat API'' @ [0x8BF7, 0x6C42, 0x5F02, 0x5E38] @ ascii '': ''"

text \<open>
  What \<open>_make_request\<close> uses from outside: the methods \<open>_prepare_image_data_uri\<close> and
  \<open>_get_proxy_config\<close> of the base class (not part of the sources at hand), \<open>json.dumps\<close>
  with the UTF-8 encoding, \<open>json.loads\<close>, the built-in formatting of a value in an
  f-string, and \<open>urllib\<close>. The debug logging reads the configuration inside its own
  \<open>try\<close>, writes to the log, and has no influence on the result; it is left out.

  Of \<open>urllib\<close>, three things decide how \<open>_make_request\<close> ends, and they are modelled
  after the library: the test of the URL type in the constructor of
  \<open>urllib.request.Request\<close>, the error processor of the opener, and the text of an
  \<open>HTTPError\<close>. The rest is a parameter:

  \<^item> \<open>request_error\<close>: what the constructor of \<open>Request\<close> raises after the test of the
    URL type (\<open>request_host\<close> parses the URL once more and can raise \<open>ValueError\<close>);
  \<^item> \<open>http_exchange\<close>: what happens on the wire, acting on the outside world, from
    \<open>opener.open\<close> to the last response (redirections are followed inside) and to the
    reading and decoding of its body. It gives the exception that came up on the way (an
    \<open>HTTPError\<close> that the redirect handler raises is one of them), or the last response
    as it is before the error processor sees it;
  \<^item> \<open>exn_str\<close>: \<open>str(e)\<close> for an exception other than \<open>HTTPError\<close>.

  A \<open>response\<close> has the status (\<open>None\<close> for a response that is not HTTP: those of the
  \<open>file\<close>, \<open>ftp\<close> and \<open>data\<close> handlers have none), the reason phrase of the status line
  (\<open>response.msg\<close>), and the outcome of \<open>response.read().decode("utf-8")\<close>.
\<close>

record request =
  req_url :: ustr
  req_data :: ustr
  req_headers :: "(ustr \<times> ustr) list"

record response =
  resp_status :: "int option"
  resp_msg :: ustr
  resp_body :: "pyexn + ustr"

record 'w client_env =
  prepare_image_data_uri :: "ustr \<Rightarrow> pyexn + ustr"
  get_proxy_config :: "pyexn + pyval"
  json_dumps :: "pyval \<Rightarrow> pyexn + ustr"
  request_error :: "ustr \<Rightarrow> pyexn option"
  http_exchange ::
    "request \<Rightarrow> (pyval \<times> pyval) option \<Rightarrow> pyval \<Rightarrow> 'w \<Rightarrow> (pyexn + response) \<times> 'w"
  json_loads :: "ustr \<Rightarrow> pyexn + pyval"
  exn_str :: "pyexn \<Rightarrow> ustr"
  format_value :: "pyval \<Rightarrow> ustr"

text \<open>
  The constructor of \<open>Request\<close> assigns \<open>full_url\<close>: the URL goes through \<open>unwrap\<close>
  (white space, one pair of angle brackets and the prefix \<open>URL:\<close> are taken off), is cut
  at its last \<open>#\<close> by \<open>_splittag\<close>, and \<open>_splittype\<close> matches what is left against
  \<open>([^/:]+):(.*)\<close> (with \<open>re.DOTALL\<close>, at the start of the string). Without a match the
  type is \<open>None\<close> and \<open>_parse\<close> raises \<open>ValueError\<close>. \<open>str.strip\<close> takes off the white
  space of \<open>str.isspace\<close>, which is that of \<open>\s\<close>. \<open>splittype\<close> gives the text of the
  group; that the library puts it in lower case makes no difference to the test.
\<close>

definition strip :: "ustr \<Rightarrow> ustr" where
  "strip s = rev (dropWhile is_space (rev (dropWhile is_space s)))"

definition unwrap :: "ustr \<Rightarrow> ustr" where
  "unwrap url =
     (let url1 = strip url;
          url2 = (if take 1 url1 = ascii ''<'' \<and> take 1 (rev url1) = ascii ''>''
                  then strip (butlast (drop 1 url1)) else url1)
      in if take 4 url2 = ascii ''URL:'' then strip (drop 4 url2) else url2)"

definition splittag :: "ustr \<Rightarrow> ustr" where
  "splittag url =
     (if 0x23 \<in> set url then rev (drop 1 (dropWhile (\<lambda>c. c \<noteq> 0x23) (rev url))) else url)"

definition typeprog :: "codepoint regex" where
  "typeprog =
     Seq (Group (Rep 1 None (\<lambda>c. c \<noteq> 0x2F \<and> c \<noteq> 0x3A)))
       (Seq (lit (ascii '':'')) (Rep 0 None (\<lambda>c. True)))"

definition splittype :: "ustr \<Rightarrow> ustr option" where
  "splittype url =
     (case matches typeprog ([], url, None) of
        [] \<Rightarrow> None
      | (b, a, g) # others \<Rightarrow> g)"

definition url_type :: "ustr \<Rightarrow> ustr option" where
  "url_type url = splittype (splittag (unwrap url))"

text \<open>Line 37: \<open>base_url.rstrip('/')\<close> needs a \<open>str\<close>.\<close>

definition endpoint_of :: "dict \<Rightarrow> pyexn + ustr" where
  "endpoint_of model_config =
     (case dict_get model_config (ascii ''base_url'') (PStr []) of
        PStr base_url \<Rightarrow> Inr (rstrip 0x2F base_url @ ascii ''/chat/completions'')
      | _ \<Rightarrow> Inl AttributeError)"

text \<open>Lines 40 to 46: \<open>prompt + custom_prompt_add\<close> needs a \<open>str\<close> on the right.\<close>

definition full_prompt_of :: "(pyval \<Rightarrow> ustr) \<Rightarrow> ustr \<Rightarrow> dict \<Rightarrow> pyexn + ustr" where
  "full_prompt_of fmt prompt model_config =
     (case dict_get model_config (ascii ''custom_prompt_add'') (PStr []) of
        PStr custom_prompt_add \<Rightarrow>
          (let negative_prompt_add = dict_get model_config (ascii ''negative_prompt_add'') (PStr []);
               full_prompt = prompt @ custom_prompt_add
           in Inr (if truthy negative_prompt_add
                   then full_prompt @ [0x0A, 0x0A] @ ascii ''Negative prompt (avoid these): '' @
                        fstr fmt negative_prompt_add
                   else full_prompt))
      | _ \<Rightarrow> Inl TypeError)"

text \<open>Lines 49 to 75: the system message and the user message.\<close>

definition system_message :: "ustr \<Rightarrow> pyval" where
  "system_message sz =
     PDict [(ascii ''role'', PStr (ascii ''system'')),
            (ascii ''content'', PStr (
               ascii ''You are an image generation assistant. Generate an image based on the user'' @
               [0x27] @ ascii ''s description. Target image size: '' @ sz @ ascii ''.''))]"

definition user_message ::
  "'w client_env \<Rightarrow> ustr \<Rightarrow> pyval \<Rightarrow> ustr option \<Rightarrow> pyexn + pyval" where
  "user_message env full_prompt strength input_image_base64 =
     (case input_image_base64 of
        Some img \<Rightarrow>
          if img \<noteq> [] then
            (case prepare_image_data_uri env img of
               Inl e \<Rightarrow> Inl e
             | Inr image_data_uri \<Rightarrow>
                 (let strength_text =
                        (if truthy strength
                         then ascii '' (modification strength: '' @ fstr (format_value env) strength
                              @ ascii '')''
                         else [])
                  in Inr (PDict [(ascii ''role'', PStr (ascii ''user'')),
                       (ascii ''content'', PList
                          [PDict [(ascii ''type'', PStr (ascii ''image_url'')),
                                  (ascii ''image_url'', PDict [(ascii ''url'', PStr image_data_uri)])],
                           PDict [(ascii ''type'', PStr (ascii ''text'')),
                                  (ascii ''text'', PStr (
                                     ascii ''Please modify this image based on the following description''
                                     @ strength_text @ ascii '': '' @ full_prompt))]])])))
          else Inr (PDict [(ascii ''role'', PStr (ascii ''user'')),
                 (ascii ''content'', PStr (ascii ''Please generate an image: '' @ full_prompt))])
      | None \<Rightarrow>
          Inr (PDict [(ascii ''role'', PStr (ascii ''user'')),
                 (ascii ''content'', PStr (ascii ''Please generate an image: '' @ full_prompt))]))"

text \<open>Lines 78 to 90: \<open>payload_dict\<close> with the optional \<open>seed\<close> and \<open>size\<close>.\<close>

definition add_optional :: "dict \<Rightarrow> dict \<Rightarrow> ustr \<Rightarrow> dict" where
  "add_optional payload_dict model_config sz =
     (let seed = dict_get model_config (ascii ''seed'') (PInt (- 1));
          with_seed = (if truthy seed \<and> \<not> eq_int seed (- 1)
                       then dict_set payload_dict (ascii ''seed'') seed else payload_dict)
      in if sz \<noteq> [] then dict_set with_seed (ascii ''size'') (PStr sz) else with_seed)"

definition payload_of ::
  "'w client_env \<Rightarrow> ustr \<Rightarrow> dict \<Rightarrow> ustr \<Rightarrow> pyval \<Rightarrow> ustr option \<Rightarrow> pyexn + dict" where
  "payload_of env prompt model_config sz strength input_image_base64 =
     (case full_prompt_of (format_value env) prompt model_config of
        Inl e \<Rightarrow> Inl e
      | Inr full_prompt \<Rightarrow>
          (case user_message env full_prompt strength input_image_base64 of
             Inl e \<Rightarrow> Inl e
           | Inr user \<Rightarrow>
               Inr (add_optional
                      [(ascii ''model'', dict_get model_config (ascii ''model'') (PStr [])),
                       (ascii ''messages'', PList [system_message sz, user])]
                      model_config sz)))"

text \<open>Lines 33 to 139: everything before the \<open>try\<close>. Each step can raise, and nothing
  catches it there.\<close>

definition prepare_request ::
  "'w client_env \<Rightarrow> ustr \<Rightarrow> dict \<Rightarrow> ustr \<Rightarrow> pyval \<Rightarrow> ustr option \<Rightarrow> pyexn + request \<times> pyval" where
  "prepare_request env prompt model_config sz strength input_image_base64 =
     (case endpoint_of model_config of
        Inl e \<Rightarrow> Inl e
      | Inr endpoint \<Rightarrow>
          (case payload_of env prompt model_config sz strength input_image_base64 of
             Inl e \<Rightarrow> Inl e
           | Inr payload_dict \<Rightarrow>
               (case json_dumps env (PDict payload_dict) of
                  Inl e \<Rightarrow> Inl e
                | Inr data \<Rightarrow>
                    (case get_proxy_config env of
                       Inl e \<Rightarrow> Inl e
                     | Inr proxy_config \<Rightarrow>
                         if url_type endpoint = None then Inl ValueError
                         else
                           (case request_error env endpoint of
                              Some e \<Rightarrow> Inl e
                            | None \<Rightarrow>
                                Inr (\<lparr> req_url = endpoint, req_data = data,
                                       req_headers =
                                         [(ascii ''Content-Type'', ascii ''application/json''),
                                          (ascii ''Accept'', ascii ''application/json''),
                                          (ascii ''Authorization'',
                                             fstr (format_value env)
                                               (dict_get model_config (ascii ''api_key'') (PStr [])))] \<rparr>,
                                     proxy_config))))))"

text \<open>Lines 143 to 152: the proxies and the timeout of the opener.\<close>

definition opener_for :: "pyval \<Rightarrow> pyexn + (pyval \<times> pyval) option \<times> pyval" where
  "opener_for proxy_config =
     (if truthy proxy_config then
        (case py_getitem proxy_config (ascii ''http'') of
           Inl e \<Rightarrow> Inl e
         | Inr http \<Rightarrow>
             (case py_getitem proxy_config (ascii ''https'') of
                Inl e \<Rightarrow> Inl e
              | Inr https \<Rightarrow>
                  (case py_get proxy_config (ascii ''timeout'') (PInt 600) of
                     Inl e \<Rightarrow> Inl e
                   | Inr timeout \<Rightarrow> Inr (Some (http, https), timeout))))
      else Inr (None, PInt 600))"

text \<open>
  \<open>opener.open\<close>. Both openers of lines 144 to 152 come from \<open>build_opener\<close> and have its
  default handlers, among them \<open>HTTPErrorProcessor\<close> and \<open>HTTPDefaultErrorHandler\<close>: an
  HTTP response whose status is outside 200 to 299 is handed to the error handlers, and
  since a redirection that was followed ends in a response that went through the same
  processor, what remains raises \<open>HTTPError(url, code, msg, hdrs, fp)\<close>. So \<open>opener.open\<close>
  returns a response only if its status is from 200 to 299, or if it has none.
\<close>

definition opener_open ::
  "'w client_env \<Rightarrow> request \<Rightarrow> (pyval \<times> pyval) option \<Rightarrow> pyval \<Rightarrow> 'w \<Rightarrow>
     (pyexn + response) \<times> 'w" where
  "opener_open env req proxies timeout w =
     (case http_exchange env req proxies timeout w of
        (Inl e, w') \<Rightarrow> (Inl e, w')
      | (Inr resp, w') \<Rightarrow>
          (case resp_status resp of
             None \<Rightarrow> (Inr resp, w')
           | Some code \<Rightarrow>
               if 200 \<le> code \<and> code < 300 then (Inr resp, w')
               else (Inl (HTTPError code (resp_msg resp)), w')))"

text \<open>Lines 142 to 171: the body of the \<open>try\<close>. The comparison of line 165 raises
  \<open>TypeError\<close> for a status that is \<open>None\<close>.\<close>

definition send_request ::
  "'w client_env \<Rightarrow> request \<Rightarrow> pyval \<Rightarrow> 'w \<Rightarrow> (pyexn + bool \<times> ustr) \<times> 'w" where
  "send_request env req proxy_config w =
     (case opener_for proxy_config of
        Inl e \<Rightarrow> (Inl e, w)
      | Inr (proxies, timeout) \<Rightarrow>
          (case opener_open env req proxies timeout w of
             (Inl e, w') \<Rightarrow> (Inl e, w')
           | (Inr resp, w') \<Rightarrow>
               (case resp_body resp of
                  Inl e \<Rightarrow> (Inl e, w')
                | Inr response_body_str \<Rightarrow>
                    (case resp_status resp of
                       None \<Rightarrow> (Inl TypeError, w')
                     | Some response_status \<Rightarrow>
                         if 200 \<le> response_status \<and> response_status < 300 then
                           (case json_loads env response_body_str of
                              Inl e \<Rightarrow> (Inl e, w')
                            | Inr response_data \<Rightarrow>
                                (extract_image_from_response response_data, w'))
                         else
                           (Inr (False, MSG_REQUEST_FAILED @ str_int response_status @
                                   ascii '')''), w')))))"

text \<open>\<open>str(e)\<close>: \<open>HTTPError.__str__\<close> is \<open>'HTTP Error %s: %s' % (self.code, self.msg)\<close>.\<close>

definition exn_text :: "'w client_env \<Rightarrow> pyexn \<Rightarrow> ustr" where
  "exn_text env e =
     (case e of
        HTTPError code msg \<Rightarrow> ascii ''HTTP Error '' @ str_int code @ ascii '': '' @ msg
      | _ \<Rightarrow> exn_str env e)"

text \<open>\<open>_make_request\<close>: the \<open>except Exception\<close> of line 173 covers the body of the
  \<open>try\<close> and nothing before it. Every exception of \<open>pyexn\<close> is an \<open>Exception\<close>.\<close>

definition make_request ::
  "'w client_env \<Rightarrow> ustr \<Rightarrow> dict \<Rightarrow> ustr \<Rightarrow> pyval \<Rightarrow> ustr option \<Rightarrow> 'w \<Rightarrow>
     (pyexn + bool \<times> ustr) \<times> 'w" where
  "make_request env prompt model_config sz strength input_image_base64 w =
     (case prepare_request env prompt model_config sz strength input_image_base64 of
        Inl e \<Rightarrow> (Inl e, w)
      | Inr (req, proxy_config) \<Rightarrow>
          (case send_request env req proxy_config w of
             (Inl e, w') \<Rightarrow>
               (Inr (False, MSG_REQUEST_EXCEPTION @ take 100 (exn_text env e)), w')
           | (Inr result, w') \<Rightarrow> (Inr result, w')))"

text \<open>An environment for the examples: no proxy, a server that answers 404.\<close>

definition example_env :: "unit client_env" where
  "example_env =
     \<lparr> prepare_image_data_uri = (\<lambda>s. Inr (ascii ''data:image/png;base64,'' @ s)),
       get_proxy_config = Inr PNone,
       json_dumps = (\<lambda>v. Inr (ascii ''{}'')),
       request_error = (\<lambda>u. None),
       http_exchange =
         (\<lambda>r p t w. (Inr \<lparr> resp_status = Some 404, resp_msg = ascii ''Not Found'',
                               resp_body = Inr (ascii ''secret detail'') \<rparr>, w)),
       json_loads = (\<lambda>s. Inl ValueError),
       exn_str = (\<lambda>e. ascii ''error''),
       format_value = (\<lambda>v. []) \<rparr>"


section \<open>Verification: model configuration resolution\<close>

lemma distinct_fields: "distinct config_fields"
  by (simp add: config_fields_def ascii_def)

lemma dict_set_fresh: "k \<notin> fst ` set d \<Longrightarrow> dict_set d k v = d @ [(k, v)]"
  by (induction d) (auto simp: dict_set_def)

lemma assemble_returning:
  "distinct fs \<Longrightarrow> set fs \<inter> fst ` set acc = {} \<Longrightarrow>
   assemble (returning f) model_id fs acc =
     Inr (acc @ filter (\<lambda>(field, val). val \<noteq> PNone)
       (map (\<lambda>field. (field, f (ascii ''models.'' @ model_id @ ascii ''.'' @ field) PNone)) fs))"
proof (induction fs arbitrary: acc)
  case Nil
  then show ?case by simp
next
  case (Cons a fs)
  let ?v = "f (ascii ''models.'' @ model_id @ ascii ''.'' @ a) PNone"
  have fresh: "a \<notin> fst ` set acc" using Cons.prems by auto
  show ?case
  proof (cases "?v = PNone")
    case True
    then show ?thesis using Cons by (simp add: returning_def)
  next
    case False
    have "set fs \<inter> fst ` set (acc @ [(a, ?v)]) = {}"
      using Cons.prems by auto
    then show ?thesis using Cons False fresh by (simp add: returning_def dict_set_fresh)
  qed
qed

lemma assemble_collected:
  "assemble (returning f) model_id config_fields [] = Inr (collected f model_id)"
  using assemble_returning [OF distinct_fields, of "[]" f model_id]
  by (simp add: collected_def)

lemma usable_iff:
  "usable v \<longleftrightarrow> is_dict v \<and> truthy (dict_get (the_dict v) (ascii ''base_url'') PNone)"
  by (cases v) (simp_all add: usable_def)

text \<open>
  C3. For a getter that returns on every call, \<open>get_model_config\<close> returns (it does not
  raise) the result of the first tier that succeeds, in the order: the nested mapping at
  \<open>models.<model_id>\<close> if it is a dict with a truthy \<open>base_url\<close>; the mapping assembled
  field by field from the non-\<open>None\<close> values of the fixed field list if it has a truthy
  \<open>base_url\<close>; if the model id differs from the default model id, the nested mapping at
  \<open>models.<default_model_id>\<close> under the same test; and \<open>None\<close> when every tier fails.
\<close>

theorem get_model_config_three_tiers:
  "get_model_config (returning f) model_id default_model_id =
     Inr (first_success
       [tier_nested f model_id,
        tier_assembled f model_id,
        tier_default f model_id default_model_id])"
  unfolding get_model_config_def
  by (simp add: assemble_collected tier_nested_def tier_assembled_def tier_default_def
      usable_iff Let_def returning_def[of f, THEN fun_cong, THEN fun_cong])

text \<open>
  C10. Whatever the getter does, a value other than \<open>None\<close> returned by
  \<open>get_model_config\<close> is a dict whose \<open>base_url\<close> is truthy.
\<close>

theorem get_model_config_usable:
  "get_model_config config_getter model_id default_model_id = Inr v \<Longrightarrow> v \<noteq> PNone \<Longrightarrow>
   \<exists>d. v = PDict d \<and> truthy (dict_get d (ascii ''base_url'') PNone)"
  unfolding get_model_config_def
  by (auto split: sum.splits if_splits elim!: is_dict.elims)

theorem get_model_config_usable_witness:
  "get_model_config
     (returning (\<lambda>key dflt. if key = ascii ''models.model1''
        then PDict [(ascii ''base_url'', PStr (ascii ''https://api.example/v1''))] else dflt))
     (ascii ''model1'') (ascii ''model1'')
     = Inr (PDict [(ascii ''base_url'', PStr (ascii ''https://api.example/v1''))])
   \<and> PDict [(ascii ''base_url'', PStr (ascii ''https://api.example/v1''))] \<noteq> PNone
   \<and> (\<exists>d. PDict [(ascii ''base_url'', PStr (ascii ''https://api.example/v1''))] = PDict d
          \<and> truthy (dict_get d (ascii ''base_url'') PNone))"
proof -
  let ?cfg = "PDict [(ascii ''base_url'', PStr (ascii ''https://api.example/v1''))]"
  let ?g = "returning (\<lambda>key dflt. if key = ascii ''models.model1'' then ?cfg else dflt)"
  have h: "get_model_config ?g (ascii ''model1'') (ascii ''model1'') = Inr ?cfg"
    by (simp add: get_model_config_def returning_def dict_get_def ascii_def)
  have n: "?cfg \<noteq> PNone" by simp
  show ?thesis using h n get_model_config_usable [OF h n] by simp
qed

section \<open>Verification: derived configurations\<close>

lemma map_of_dict_set: "map_of (dict_set d k v) = (map_of d)(k \<mapsto> v)"
  by (simp add: dict_set_def update_conv')

lemma dict_get_dict_set: "dict_get (dict_set d k v) k' dflt = (if k' = k then v else dict_get d k' dflt)"
  by (simp add: dict_get_def map_of_dict_set)

lemma copy_then_set:
  assumes "r < length h"
  shows "heap_setitem (snd (dict_copy h r)) (fst (dict_copy h r)) k v = h @ [dict_set (h ! r) k v]"
  using assms by (simp add: heap_setitem_def dict_copy_def nth_append)

lemma merge_eq:
  assumes "r < length h" "extra \<noteq> []"
  shows "merge_negative_prompt fmt h r extra =
           (length h, h @ [dict_set (h ! r) (ascii ''negative_prompt_add'') (merged_value fmt (h ! r) extra)])"
  using assms
  by (simp add: merge_negative_prompt_def merged_value_def Let_def heap_setitem_def dict_copy_def nth_append)

text \<open>
  C6, as stated, fails: with \<open>negative_prompt_add\<close> absent and a non-empty extra prompt
  the config is not passed through; a new dict carrying the extra prompt is returned.
\<close>

theorem merge_negative_prompt_passes_through_counterexample:
  "\<not> truthy (dict_get ([[]] ! 0) (ascii ''negative_prompt_add'') (PStr []))
   \<and> merge_negative_prompt (\<lambda>v. []) [[]] 0 (ascii ''blurry'')
       = (1, [[], [(ascii ''negative_prompt_add'', PStr (ascii ''blurry''))]])
   \<and> merge_negative_prompt (\<lambda>v. []) [[]] 0 (ascii ''blurry'') \<noteq> (0, [[]])"
  by (simp add: merge_negative_prompt_def Let_def heap_setitem_def dict_copy_def
      dict_get_def dict_set_def ascii_def)

text \<open>
  C6, amended. With an empty extra prompt \<open>merge_negative_prompt\<close> returns the reference
  it was given and leaves the store as it is. With a non-empty extra prompt it returns a
  newly allocated dict, every dict that existed before (the input among them) is unchanged,
  the new dict maps \<open>negative_prompt_add\<close> to \<open>existing, extra\<close> when the existing value
  is truthy and to the extra prompt alone otherwise, and every other key is as in the
  input.
\<close>

theorem merge_negative_prompt_amended:
  "r < length h \<Longrightarrow>
   merge_negative_prompt fmt h r [] = (r, h) \<and>
   (extra \<noteq> [] \<longrightarrow>
      (case merge_negative_prompt fmt h r extra of (r', h') \<Rightarrow>
         r' = length h \<and> r' \<noteq> r \<and> length h' = Suc (length h) \<and> take (length h) h' = h \<and>
         dict_get (h' ! r') (ascii ''negative_prompt_add'') dflt =
           (let existing = dict_get (h ! r) (ascii ''negative_prompt_add'') (PStr [])
            in if truthy existing then PStr (fstr fmt existing @ ascii '', '' @ extra)
               else PStr extra) \<and>
         (\<forall>s. dict_get (h ! r) (ascii ''negative_prompt_add'') (PStr []) = PStr s \<and> s \<noteq> [] \<longrightarrow>
              dict_get (h' ! r') (ascii ''negative_prompt_add'') dflt =
                PStr (s @ ascii '', '' @ extra)) \<and>
         (\<forall>k. k \<noteq> ascii ''negative_prompt_add'' \<longrightarrow> map_of (h' ! r') k = map_of (h ! r) k)))"
proof (intro conjI impI)
  show "merge_negative_prompt fmt h r [] = (r, h)"
    by (simp add: merge_negative_prompt_def)
next
  assume r: "r < length h" and e: "extra \<noteq> []"
  show "case merge_negative_prompt fmt h r extra of (r', h') \<Rightarrow>
         r' = length h \<and> r' \<noteq> r \<and> length h' = Suc (length h) \<and> take (length h) h' = h \<and>
         dict_get (h' ! r') (ascii ''negative_prompt_add'') dflt =
           (let existing = dict_get (h ! r) (ascii ''negative_prompt_add'') (PStr [])
            in if truthy existing then PStr (fstr fmt existing @ ascii '', '' @ extra)
               else PStr extra) \<and>
         (\<forall>s. dict_get (h ! r) (ascii ''negative_prompt_add'') (PStr []) = PStr s \<and> s \<noteq> [] \<longrightarrow>
              dict_get (h' ! r') (ascii ''negative_prompt_add'') dflt =
                PStr (s @ ascii '', '' @ extra)) \<and>
         (\<forall>k. k \<noteq> ascii ''negative_prompt_add'' \<longrightarrow> map_of (h' ! r') k = map_of (h ! r) k)"
    using r e by (simp add: merge_eq dict_get_dict_set map_of_dict_set merged_value_def Let_def)
qed

theorem merge_negative_prompt_amended_witness:
  "(0::nat) < length [[(ascii ''negative_prompt_add'', PStr (ascii ''lowres''))]] \<and>
   ascii ''blurry'' \<noteq> [] \<and>
   merge_negative_prompt (\<lambda>v. []) [[(ascii ''negative_prompt_add'', PStr (ascii ''lowres''))]] 0 []
     = (0, [[(ascii ''negative_prompt_add'', PStr (ascii ''lowres''))]]) \<and>
   merge_negative_prompt (\<lambda>v. []) [[(ascii ''negative_prompt_add'', PStr (ascii ''lowres''))]] 0
       (ascii ''blurry'')
     = (1, [[(ascii ''negative_prompt_add'', PStr (ascii ''lowres''))],
            [(ascii ''negative_prompt_add'', PStr (ascii ''lowres, blurry''))]])"
proof -
  let ?h = "[[(ascii ''negative_prompt_add'', PStr (ascii ''lowres''))]]"
  have r: "(0::nat) < length ?h" by simp
  have e: "ascii ''blurry'' \<noteq> []" by (simp add: ascii_def)
  have id: "merge_negative_prompt (\<lambda>v. []) ?h 0 [] = (0, ?h)"
    using merge_negative_prompt_amended [OF r, of "\<lambda>v. []" "ascii ''blurry''" PNone] by simp
  have "merge_negative_prompt (\<lambda>v. []) ?h 0 (ascii ''blurry'')
     = (1, [[(ascii ''negative_prompt_add'', PStr (ascii ''lowres''))],
            [(ascii ''negative_prompt_add'', PStr (ascii ''lowres, blurry''))]])"
    using e by (simp add: merge_eq merged_value_def dict_get_def dict_set_def ascii_def)
  then show ?thesis using r e id by simp
qed

lemma inject_eq:
  assumes "r < length h" "sz \<noteq> []"
    "dict_get (h ! r) (ascii ''format'') (PStr (ascii ''openai'')) = PStr (ascii ''gemini'') \<or>
     dict_get (h ! r) (ascii ''format'') (PStr (ascii ''openai'')) = PStr (ascii ''zai'')"
  shows "inject_llm_original_size h r sz =
           (length h, h @ [dict_set (h ! r) (ascii ''_llm_original_size'') (PStr sz)])"
  using assms
  by (auto simp add: inject_llm_original_size_def Let_def heap_setitem_def dict_copy_def nth_append)

lemma openai_neq: "ascii ''openai'' \<noteq> ascii ''gemini''" "ascii ''openai'' \<noteq> ascii ''zai''"
  by (simp_all add: ascii_def)

text \<open>
  C7. For a config whose \<open>format\<close> is \<open>openai\<close> (also by default, when the key is
  absent) \<open>inject_llm_original_size\<close> returns the reference it was given and changes
  nothing. For \<open>format\<close> \<open>gemini\<close> or \<open>zai\<close> and a non-empty size string it returns a newly
  allocated dict in which \<open>_llm_original_size\<close> is the size string and every other key is
  as in the input; every dict that existed before is unchanged.
\<close>

theorem inject_llm_original_size_frame:
  "r < length h \<Longrightarrow>
   (dict_get (h ! r) (ascii ''format'') (PStr (ascii ''openai'')) = PStr (ascii ''openai'')
      \<longrightarrow> inject_llm_original_size h r sz = (r, h)) \<and>
   ((dict_get (h ! r) (ascii ''format'') (PStr (ascii ''openai'')) = PStr (ascii ''gemini'') \<or>
     dict_get (h ! r) (ascii ''format'') (PStr (ascii ''openai'')) = PStr (ascii ''zai''))
     \<and> sz \<noteq> [] \<longrightarrow>
      (case inject_llm_original_size h r sz of (r', h') \<Rightarrow>
         r' = length h \<and> r' \<noteq> r \<and> length h' = Suc (length h) \<and> take (length h) h' = h \<and>
         dict_get (h' ! r') (ascii ''_llm_original_size'') dflt = PStr sz \<and>
         (\<forall>k. k \<noteq> ascii ''_llm_original_size'' \<longrightarrow> map_of (h' ! r') k = map_of (h ! r) k)))"
proof (intro conjI impI)
  assume "dict_get (h ! r) (ascii ''format'') (PStr (ascii ''openai'')) = PStr (ascii ''openai'')"
  then show "inject_llm_original_size h r sz = (r, h)"
    by (simp add: inject_llm_original_size_def openai_neq)
next
  assume r: "r < length h"
    and f: "(dict_get (h ! r) (ascii ''format'') (PStr (ascii ''openai'')) = PStr (ascii ''gemini'') \<or>
     dict_get (h ! r) (ascii ''format'') (PStr (ascii ''openai'')) = PStr (ascii ''zai''))
     \<and> sz \<noteq> []"
  then have eq: "inject_llm_original_size h r sz =
           (length h, h @ [dict_set (h ! r) (ascii ''_llm_original_size'') (PStr sz)])"
    using inject_eq by blast
  show "case inject_llm_original_size h r sz of (r', h') \<Rightarrow>
         r' = length h \<and> r' \<noteq> r \<and> length h' = Suc (length h) \<and> take (length h) h' = h \<and>
         dict_get (h' ! r') (ascii ''_llm_original_size'') dflt = PStr sz \<and>
         (\<forall>k. k \<noteq> ascii ''_llm_original_size'' \<longrightarrow> map_of (h' ! r') k = map_of (h ! r) k)"
    using r by (simp add: eq dict_get_dict_set map_of_dict_set)
qed

theorem inject_llm_original_size_frame_witness:
  "(0::nat) < length [[(ascii ''format'', PStr (ascii ''openai''))],
                      [(ascii ''format'', PStr (ascii ''gemini'')), (ascii ''model'', PStr (ascii ''g1''))]] \<and>
   inject_llm_original_size
      [[(ascii ''format'', PStr (ascii ''openai''))],
       [(ascii ''format'', PStr (ascii ''gemini'')), (ascii ''model'', PStr (ascii ''g1''))]] 0
      (ascii ''1024x1024'')
    = (0, [[(ascii ''format'', PStr (ascii ''openai''))],
           [(ascii ''format'', PStr (ascii ''gemini'')), (ascii ''model'', PStr (ascii ''g1''))]]) \<and>
   inject_llm_original_size
      [[(ascii ''format'', PStr (ascii ''openai''))],
       [(ascii ''format'', PStr (ascii ''gemini'')), (ascii ''model'', PStr (ascii ''g1''))]] 1
      (ascii ''1024x1024'')
    = (2, [[(ascii ''format'', PStr (ascii ''openai''))],
           [(ascii ''format'', PStr (ascii ''gemini'')), (ascii ''model'', PStr (ascii ''g1''))],
           [(ascii ''format'', PStr (ascii ''gemini'')), (ascii ''model'', PStr (ascii ''g1'')),
            (ascii ''_llm_original_size'', PStr (ascii ''1024x1024''))]])"
proof -
  let ?h = "[[(ascii ''format'', PStr (ascii ''openai''))],
             [(ascii ''format'', PStr (ascii ''gemini'')), (ascii ''model'', PStr (ascii ''g1''))]]"
  have r: "(0::nat) < length ?h" by simp
  have f: "dict_get (?h ! 0) (ascii ''format'') (PStr (ascii ''openai'')) = PStr (ascii ''openai'')"
    by (simp add: dict_get_def)
  have a: "inject_llm_original_size ?h 0 (ascii ''1024x1024'') = (0, ?h)"
    using inject_llm_original_size_frame [OF r, of "ascii ''1024x1024''" PNone] f by blast
  have b: "inject_llm_original_size ?h 1 (ascii ''1024x1024'') =
     (2, ?h @ [[(ascii ''format'', PStr (ascii ''gemini'')), (ascii ''model'', PStr (ascii ''g1'')),
            (ascii ''_llm_original_size'', PStr (ascii ''1024x1024''))]])"
    by (simp add: inject_llm_original_size_def Let_def heap_setitem_def dict_copy_def
        dict_get_def dict_set_def ascii_def)
  show ?thesis using r a b by simp
qed

section \<open>Verification: image data resolution\<close>




section \<open>Verification: automatic recall\<close>

text \<open>The test of lines 87 to 99 accepts exactly the results that report success.\<close>

lemma status_ok_get:
  "status_ok (dict_get d (ascii ''status'') (PStr [])) =
     (has_status d (ascii ''ok'') \<or> has_status d (ascii ''success''))"
proof (cases "map_of d (ascii ''status'')")
  case None
  then show ?thesis by (simp add: dict_get_def has_status_def ascii_def)
next
  case (Some v)
  then show ?thesis by (cases v) (simp_all add: dict_get_def has_status_def)
qed

lemma eq_int_get: "eq_int (dict_get d key PNone) 0 = has_zero d key"
  by (simp add: dict_get_def has_zero_def split: option.splits)

lemma reports_success_iff [simp]: "reports_success v = indicates_success v"
  by (cases v) (simp_all add: reports_success_def status_ok_get eq_int_get)

lemma recording_send:
  "send_command_fn (recording env) cmd args st (w, t) =
     (case send_command_fn env cmd args st w of (r, w') \<Rightarrow> (r, (w', t @ [(cmd, r)])))"
  by (simp add: recording_def)

lemma try_commands_trace:
  "case try_commands (recording env) cmds target (w, tr) of (r, clogs, (w', t)) \<Rightarrow>
     (\<exists>t1. t = tr @ t1 \<and> prefix (map fst t1) cmds \<and>
        list_all (\<lambda>(c, r). failed r) (butlast t1) \<and>
        (case r of
           Returns b \<Rightarrow>
             if b then t1 \<noteq> [] \<and> succeeded (snd (last t1)) \<and> clogs \<noteq> [] \<and>
                       last clogs = LogRecalled (fst (last t1)) target
             else map fst t1 = cmds \<and> list_all (\<lambda>(c, r). failed r) t1
         | Raises e \<Rightarrow> False
         | Cancelled \<Rightarrow> t1 \<noteq> [] \<and> snd (last t1) = Cancelled))"
proof (induction cmds arbitrary: w tr)
  case Nil
  then show ?case by simp
next
  case (Cons cmd rest)
  obtain r w' where s: "send_command_fn env cmd [(ascii ''message_id'', PStr target)] False w = (r, w')"
    by (cases "send_command_fn env cmd [(ascii ''message_id'', PStr target)] False w")
  let ?t = "tr @ [(cmd, r)]"
  note IH = Cons.IH [where w = w' and tr = ?t]
  show ?case
  proof (cases r)
    case (Returns v)
    show ?thesis
    proof (cases "indicates_success v")
      case True
      then show ?thesis using s Returns by (simp add: recording_send)
    next
      case False
      obtain r2 l2 w2 t2 where
        e: "try_commands (recording env) rest target (w', ?t) = (r2, l2, (w2, t2))"
        by (metis prod.exhaust)
      from IH e obtain t1 where t1: "t2 = ?t @ t1" "prefix (map fst t1) rest"
        "list_all (\<lambda>(c, r). failed r) (butlast t1)"
        "(case r2 of
           Returns b \<Rightarrow>
             if b then t1 \<noteq> [] \<and> succeeded (snd (last t1)) \<and> l2 \<noteq> [] \<and>
                       last l2 = LogRecalled (fst (last t1)) target
             else map fst t1 = rest \<and> list_all (\<lambda>(c, r). failed r) t1
         | Raises e \<Rightarrow> False
         | Cancelled \<Rightarrow> t1 \<noteq> [] \<and> snd (last t1) = Cancelled)"
        by auto
      have "try_commands (recording env) (cmd # rest) target (w, tr) = (r2, l2, (w2, t2))"
        using s Returns False e by (simp add: recording_send)
      moreover have "t2 = tr @ ((cmd, r) # t1)" using t1 by simp
      moreover have "prefix (map fst ((cmd, r) # t1)) (cmd # rest)" using t1 by simp
      moreover have "list_all (\<lambda>(c, r). failed r) (butlast ((cmd, r) # t1))"
        using t1 Returns False by simp
      moreover have "(case r2 of
           Returns b \<Rightarrow>
             if b then (cmd, r) # t1 \<noteq> [] \<and> succeeded (snd (last ((cmd, r) # t1))) \<and> l2 \<noteq> [] \<and>
                       last l2 = LogRecalled (fst (last ((cmd, r) # t1))) target
             else map fst ((cmd, r) # t1) = cmd # rest \<and> list_all (\<lambda>(c, r). failed r) ((cmd, r) # t1)
         | Raises e \<Rightarrow> False
         | Cancelled \<Rightarrow> (cmd, r) # t1 \<noteq> [] \<and> snd (last ((cmd, r) # t1)) = Cancelled)"
        using t1(4) Returns False by (auto split: outcome.splits if_splits)
      ultimately show ?thesis by (simp del: last.simps butlast.simps)
    qed
  next
    case (Raises x)
    obtain r2 l2 w2 t2 where
      e: "try_commands (recording env) rest target (w', ?t) = (r2, l2, (w2, t2))"
      by (metis prod.exhaust)
    from IH e obtain t1 where t1: "t2 = ?t @ t1" "prefix (map fst t1) rest"
      "list_all (\<lambda>(c, r). failed r) (butlast t1)"
      "(case r2 of
         Returns b \<Rightarrow>
           if b then t1 \<noteq> [] \<and> succeeded (snd (last t1)) \<and> l2 \<noteq> [] \<and>
                     last l2 = LogRecalled (fst (last t1)) target
           else map fst t1 = rest \<and> list_all (\<lambda>(c, r). failed r) t1
       | Raises e \<Rightarrow> False
       | Cancelled \<Rightarrow> t1 \<noteq> [] \<and> snd (last t1) = Cancelled)"
      by auto
    have "try_commands (recording env) (cmd # rest) target (w, tr) =
            (r2, LogCommandFailed cmd x # l2, (w2, t2))"
      using s Raises e by (simp add: recording_send)
    moreover have "t2 = tr @ ((cmd, r) # t1)" using t1 by simp
    moreover have "prefix (map fst ((cmd, r) # t1)) (cmd # rest)" using t1 by simp
    moreover have "list_all (\<lambda>(c, r). failed r) (butlast ((cmd, r) # t1))"
      using t1 Raises by simp
    moreover have "(case r2 of
         Returns b \<Rightarrow>
           if b then (cmd, r) # t1 \<noteq> [] \<and> succeeded (snd (last ((cmd, r) # t1))) \<and>
                     LogCommandFailed cmd x # l2 \<noteq> [] \<and>
                     last (LogCommandFailed cmd x # l2) = LogRecalled (fst (last ((cmd, r) # t1))) target
           else map fst ((cmd, r) # t1) = cmd # rest \<and> list_all (\<lambda>(c, r). failed r) ((cmd, r) # t1)
       | Raises e \<Rightarrow> False
       | Cancelled \<Rightarrow> (cmd, r) # t1 \<noteq> [] \<and> snd (last ((cmd, r) # t1)) = Cancelled)"
      using t1(4) Raises by (auto split: outcome.splits if_splits)
    ultimately show ?thesis by (simp del: last.simps butlast.simps)
  next
    case Cancelled
    then show ?thesis using s by (simp add: recording_send)
  qed
qed

lemma recording_sleep:
  "sleep (recording env) d (w, t) = (case sleep env d w of (r, w') \<Rightarrow> (r, (w', t)))"
  by (simp add: recording_def)

lemma recording_get_messages:
  "get_messages_by_time_in_chat (recording env) c (w, t) =
     (case get_messages_by_time_in_chat env c w of (r, w') \<Rightarrow> (r, (w', t)))"
  by (simp add: recording_def)

lemma recording_fields:
  "bot_qq_account (recording env) = bot_qq_account env"
  "is_digit (recording env) = is_digit env"
  by (simp_all add: recording_def)

text \<open>
  C9. Run the task with the command function observed. Success of a command is what
  \<open>reports_success\<close> says of its result: the boolean true, or a dict whose status is
  \<open>ok\<close> or \<open>success\<close> or whose \<open>retcode\<close> or \<open>code\<close> equals 0. The commands sent are, in
  order, an initial segment of \<open>DELETE_MSG\<close>, \<open>delete_msg\<close>, \<open>RECALL_MSG\<close>, \<open>recall_msg\<close>;
  every command but the last one sent has failed (it returned no success, or it raised),
  so nothing is sent after a success and the next candidate is sent after a failure; when the last command sent succeeded, the last log entry
  reports the recall with that command; and when every command sent has failed, all four
  candidates were sent and the last log entry is the failure warning. The task itself
  ends with its log and never with an exception.
\<close>

theorem recall_task_candidates:
  "case recall_task (recording env) chat_id delay_seconds (w, []) of (logs, (w', trace)) \<Rightarrow>
     prefix (map fst trace) DELETE_COMMAND_CANDIDATES \<and>
     list_all (\<lambda>(cmd, r). failed r) (butlast trace) \<and>
     (trace \<noteq> [] \<and> succeeded (snd (last trace)) \<longrightarrow>
        (\<exists>mid. logs \<noteq> [] \<and> last logs = LogRecalled (fst (last trace)) mid)) \<and>
     (trace \<noteq> [] \<and> list_all (\<lambda>(cmd, r). failed r) trace \<longrightarrow>
        map fst trace = DELETE_COMMAND_CANDIDATES \<and>
        (\<exists>mid. logs \<noteq> [] \<and> last logs = LogRecallFailed mid))"
proof -
  have loop: "case try_commands (recording env) DELETE_COMMAND_CANDIDATES target (w3, []) of
      (r, clogs, (w4, trace)) \<Rightarrow>
        prefix (map fst trace) DELETE_COMMAND_CANDIDATES \<and>
        list_all (\<lambda>(cmd, r). failed r) (butlast trace) \<and>
        (case r of
           Returns b \<Rightarrow>
             if b then trace \<noteq> [] \<and> succeeded (snd (last trace)) \<and> clogs \<noteq> [] \<and>
                       last clogs = LogRecalled (fst (last trace)) target
             else map fst trace = DELETE_COMMAND_CANDIDATES \<and>
                  list_all (\<lambda>(c, r). failed r) trace
         | Raises e \<Rightarrow> False
         | Cancelled \<Rightarrow> trace \<noteq> [] \<and> snd (last trace) = Cancelled)"
    for target w3
    using try_commands_trace [where env = env and cmds = DELETE_COMMAND_CANDIDATES
        and target = target and w = w3 and tr = "[]"]
    by (auto split: prod.splits)
  have nf: "\<not> (succeeded r \<and> failed r)" for r by (cases r) auto
  have last_failed: "t \<noteq> [] \<Longrightarrow> list_all (\<lambda>(c, r). failed r) t \<Longrightarrow> failed (snd (last t))"
    for t :: trace
    by (induction t) (auto split: if_splits)
  obtain r1 w1 where s1: "sleep env 4 w = (r1, w1)" by (cases "sleep env 4 w")
  show ?thesis
  proof (cases r1)
    case (Returns u)
    obtain r2 w2 where s2: "get_messages_by_time_in_chat env chat_id w1 = (r2, w2)"
      by (cases "get_messages_by_time_in_chat env chat_id w1")
    show ?thesis
    proof (cases r2)
      case (Returns messages)
      note R2 = this
      obtain flogs ft where ft: "find_target (is_digit env) (bot_qq_account env) messages = (flogs, ft)"
        by (cases "find_target (is_digit env) (bot_qq_account env) messages")
      show ?thesis
      proof (cases ft)
        case None
        then show ?thesis using s1 \<open>r1 = Returns u\<close> s2 R2 ft
          by (simp add: recall_task_def recording_sleep recording_get_messages recording_fields)
      next
        case (Some target)
        obtain r3 w3 where s3: "sleep env delay_seconds w2 = (r3, w3)"
          by (cases "sleep env delay_seconds w2")
        show ?thesis
        proof (cases r3)
          case (Returns u')
          obtain r4 clogs w4 trace where
            e: "try_commands (recording env) DELETE_COMMAND_CANDIDATES target (w3, []) =
                  (r4, clogs, (w4, trace))"
            by (metis prod.exhaust)
          note L = loop [of target w3, unfolded e, simplified]
          have task: "recall_task (recording env) chat_id delay_seconds (w, []) =
              (case r4 of
                 Returns recall_success \<Rightarrow>
                   (flogs @ [LogScheduled delay_seconds target] @ clogs @
                      (if \<not> recall_success then [LogRecallFailed target] else []), (w4, trace))
               | _ \<Rightarrow> (flogs @ [LogScheduled delay_seconds target] @ clogs @ handlers r4, (w4, trace)))"
            using s1 \<open>r1 = Returns u\<close> s2 R2 ft Some s3 Returns e
            by (simp add: recall_task_def recording_sleep recording_get_messages recording_fields
                split: outcome.splits)
          show ?thesis
          proof (cases r4)
            case (Returns b)
            show ?thesis
            proof (cases b)
              case True
              then show ?thesis using L Returns task nf last_failed [of trace]
                by (auto simp del: last.simps butlast.simps simp add: last_ConsR)
            next
              case False
              then show ?thesis using L Returns task nf last_failed [of trace]
                by (auto simp del: last.simps butlast.simps simp add: last_ConsR)
            qed
          next
            case (Raises x)
            then show ?thesis using L by simp
          next
            case Cancelled
            then show ?thesis using L task last_failed [of trace]
              by (auto simp del: last.simps butlast.simps)
          qed
        next
          case (Raises x)
          then show ?thesis using s1 \<open>r1 = Returns u\<close> s2 R2 ft Some s3
            by (simp add: recall_task_def recording_sleep recording_get_messages recording_fields)
        next
          case Cancelled
          then show ?thesis using s1 \<open>r1 = Returns u\<close> s2 R2 ft Some s3
            by (simp add: recall_task_def recording_sleep recording_get_messages recording_fields)
        qed
      qed
    next
      case (Raises x)
      then show ?thesis using s1 \<open>r1 = Returns u\<close> s2
        by (simp add: recall_task_def recording_sleep recording_get_messages)
    next
      case Cancelled
      then show ?thesis using s1 \<open>r1 = Returns u\<close> s2
        by (simp add: recall_task_def recording_sleep recording_get_messages)
    qed
  next
    case (Raises x)
    then show ?thesis using s1 by (simp add: recall_task_def recording_sleep)
  next
    case Cancelled
    then show ?thesis using s1 by (simp add: recall_task_def recording_sleep)
  qed
qed

theorem recall_task_candidates_witness:
  "recall_task
     (recording
        \<lparr> sleep = (\<lambda>d w. (Returns (), w)),
          get_messages_by_time_in_chat = (\<lambda>c w. (Returns [(ascii ''10001'', ascii ''987'')], w)),
          bot_qq_account = ascii ''10001'',
          send_command_fn = (\<lambda>cmd args st w.
            (if cmd = ascii ''delete_msg'' then Returns (PDict [(ascii ''status'', PStr (ascii ''OK''))])
             else Raises (Raised (ascii ''unknown'')), w)),
          is_digit = (\<lambda>c. 48 \<le> c \<and> c \<le> 57) \<rparr>)
     (ascii ''chat'') 30 ((), [])
   = ([LogScheduled 30 (ascii ''987''),
       LogCommandFailed (ascii ''DELETE_MSG'') (Raised (ascii ''unknown'')),
       LogRecalled (ascii ''delete_msg'') (ascii ''987'')],
      ((), [(ascii ''DELETE_MSG'', Raises (Raised (ascii ''unknown''))),
            (ascii ''delete_msg'', Returns (PDict [(ascii ''status'', PStr (ascii ''OK''))]))]))
   \<and> prefix [ascii ''DELETE_MSG'', ascii ''delete_msg''] DELETE_COMMAND_CANDIDATES
   \<and> recall_task
     (recording
        \<lparr> sleep = (\<lambda>d w. (Returns (), w)),
          get_messages_by_time_in_chat = (\<lambda>c w. (Returns [(ascii ''10001'', ascii ''987'')], w)),
          bot_qq_account = ascii ''10001'',
          send_command_fn = (\<lambda>cmd args st w. (Returns (PBool False), w)),
          is_digit = (\<lambda>c. 48 \<le> c \<and> c \<le> 57) \<rparr>)
     (ascii ''chat'') 30 ((), [])
   = ([LogScheduled 30 (ascii ''987''), LogRecallFailed (ascii ''987'')],
      ((), [(ascii ''DELETE_MSG'', Returns (PBool False)),
            (ascii ''delete_msg'', Returns (PBool False)),
            (ascii ''RECALL_MSG'', Returns (PBool False)),
            (ascii ''recall_msg'', Returns (PBool False))]))
   \<and> recall_task
     (recording
        \<lparr> sleep = (\<lambda>d w. (Returns (), w)),
          get_messages_by_time_in_chat = (\<lambda>c w. (Returns [(ascii ''10001'', ascii ''987'')], w)),
          bot_qq_account = ascii ''10001'',
          send_command_fn = (\<lambda>cmd args st w.
            (if cmd = ascii ''DELETE_MSG''
             then Returns (PDict [(ascii ''status'', PStr (ascii ''failed'')), (ascii ''retcode'', PInt 1)])
             else Returns (PDict [(ascii ''retcode'', PInt 0)]), w)),
          is_digit = (\<lambda>c. 48 \<le> c \<and> c \<le> 57) \<rparr>)
     (ascii ''chat'') 30 ((), [])
   = ([LogScheduled 30 (ascii ''987''), LogRecalled (ascii ''delete_msg'') (ascii ''987'')],
      ((), [(ascii ''DELETE_MSG'',
               Returns (PDict [(ascii ''status'', PStr (ascii ''failed'')), (ascii ''retcode'', PInt 1)])),
            (ascii ''delete_msg'', Returns (PDict [(ascii ''retcode'', PInt 0)]))]))
   \<and> failed (Returns (PDict [(ascii ''status'', PStr (ascii ''failed'')), (ascii ''retcode'', PInt 1)]))
   \<and> succeeded (Returns (PDict [(ascii ''retcode'', PInt 0)]))"
proof -
  let ?ok = "\<lparr> sleep = (\<lambda>(d::int) (w::unit). (Returns (), w)),
          get_messages_by_time_in_chat = (\<lambda>(c::ustr) w. (Returns [(ascii ''10001'', ascii ''987'')], w)),
          bot_qq_account = ascii ''10001'',
          send_command_fn = (\<lambda>cmd (args::dict) (st::bool) w.
            (if cmd = ascii ''delete_msg'' then Returns (PDict [(ascii ''status'', PStr (ascii ''OK''))])
             else Raises (Raised (ascii ''unknown'')), w)),
          is_digit = (\<lambda>c. 48 \<le> c \<and> c \<le> 57) \<rparr>"
  let ?no = "\<lparr> sleep = (\<lambda>(d::int) (w::unit). (Returns (), w)),
          get_messages_by_time_in_chat = (\<lambda>(c::ustr) w. (Returns [(ascii ''10001'', ascii ''987'')], w)),
          bot_qq_account = ascii ''10001'',
          send_command_fn = (\<lambda>(cmd::ustr) (args::dict) (st::bool) w. (Returns (PBool False), w)),
          is_digit = (\<lambda>c. 48 \<le> c \<and> c \<le> 57) \<rparr>"
  have a: "recall_task (recording ?ok) (ascii ''chat'') 30 ((), [])
     = ([LogScheduled 30 (ascii ''987''),
       LogCommandFailed (ascii ''DELETE_MSG'') (Raised (ascii ''unknown'')),
       LogRecalled (ascii ''delete_msg'') (ascii ''987'')],
      ((), [(ascii ''DELETE_MSG'', Raises (Raised (ascii ''unknown''))),
            (ascii ''delete_msg'', Returns (PDict [(ascii ''status'', PStr (ascii ''OK''))]))]))"
    by (simp add: recall_task_def recording_def DELETE_COMMAND_CANDIDATES_def ascii_def
        isdigit_def lower_cp_def dict_get_def)
  have b: "recall_task (recording ?no) (ascii ''chat'') 30 ((), [])
     = ([LogScheduled 30 (ascii ''987''), LogRecallFailed (ascii ''987'')],
      ((), [(ascii ''DELETE_MSG'', Returns (PBool False)),
            (ascii ''delete_msg'', Returns (PBool False)),
            (ascii ''RECALL_MSG'', Returns (PBool False)),
            (ascii ''recall_msg'', Returns (PBool False))]))"
    by (simp add: recall_task_def recording_def DELETE_COMMAND_CANDIDATES_def ascii_def
        isdigit_def)
  let ?dict = "\<lparr> sleep = (\<lambda>(d::int) (w::unit). (Returns (), w)),
          get_messages_by_time_in_chat = (\<lambda>(c::ustr) w. (Returns [(ascii ''10001'', ascii ''987'')], w)),
          bot_qq_account = ascii ''10001'',
          send_command_fn = (\<lambda>cmd (args::dict) (st::bool) w.
            (if cmd = ascii ''DELETE_MSG''
             then Returns (PDict [(ascii ''status'', PStr (ascii ''failed'')), (ascii ''retcode'', PInt 1)])
             else Returns (PDict [(ascii ''retcode'', PInt 0)]), w)),
          is_digit = (\<lambda>c. 48 \<le> c \<and> c \<le> 57) \<rparr>"
  have d: "recall_task (recording ?dict) (ascii ''chat'') 30 ((), [])
     = ([LogScheduled 30 (ascii ''987''), LogRecalled (ascii ''delete_msg'') (ascii ''987'')],
      ((), [(ascii ''DELETE_MSG'',
               Returns (PDict [(ascii ''status'', PStr (ascii ''failed'')), (ascii ''retcode'', PInt 1)])),
            (ascii ''delete_msg'', Returns (PDict [(ascii ''retcode'', PInt 0)]))]))"
    by (simp add: recall_task_def recording_def DELETE_COMMAND_CANDIDATES_def ascii_def
        isdigit_def lower_cp_def dict_get_def)
  have f: "failed (Returns (PDict [(ascii ''status'', PStr (ascii ''failed'')), (ascii ''retcode'', PInt 1)]))"
    using recall_task_candidates [of ?dict "ascii ''chat''" 30 "()"] unfolding d by simp
  have g: "succeeded (Returns (PDict [(ascii ''retcode'', PInt 0)]))"
    by (simp add: reports_success_def has_zero_def has_status_def ascii_def del: reports_success_iff)
  have c: "prefix [ascii ''DELETE_MSG'', ascii ''delete_msg''] DELETE_COMMAND_CANDIDATES"
    using recall_task_candidates [of ?ok "ascii ''chat''" 30 "()"] unfolding a by simp
  show ?thesis using a b c d f g by simp
qed

section \<open>Verification: extraction of the image\<close>

declare findall.simps [simp del]

lemma matches_lit:
  "matches (lit s) (b, a, g) =
     (if prefix s a then [(rev s @ b, drop (length s) a, g)] else [])"
proof (induction s arbitrary: b a)
  case Nil
  then show ?case by simp
next
  case (Cons c cs)
  show ?case
  proof (cases a)
    case Nil
    then show ?thesis by simp
  next
    case (Cons x xs)
    then show ?thesis using Cons.IH [of "x # b" xs] by auto
  qed
qed

lemma seq_lit:
  "matches (Seq (lit s) r) (b, s @ a, g) = matches r (rev s @ b, a, g)"
  by (simp add: matches_lit)

lemma seq_lit_fail:
  "\<not> prefix s a \<Longrightarrow> matches (Seq (lit s) r) (b, a, g) = []"
  by (simp add: matches_lit)

lemma findall_no_match:
  "matches r (b, c # cs, None) = [] \<Longrightarrow> findall r b (c # cs) = findall r (c # b) cs"
  by (subst findall.simps) simp

lemma findall_skip:
  "(\<And>p1 p2. pre = p1 @ p2 \<Longrightarrow> p2 \<noteq> [] \<Longrightarrow> matches r (rev p1 @ b, p2 @ a, None) = []) \<Longrightarrow>
   findall r b (pre @ a) = findall r (rev pre @ b) a"
proof (induction pre arbitrary: b)
  case Nil
  then show ?case by simp
next
  case (Cons c cs)
  have "matches r (b, (c # cs) @ a, None) = []"
    using Cons.prems [of "[]" "c # cs"] by simp
  then have "findall r b ((c # cs) @ a) = findall r (c # b) (cs @ a)"
    by (simp add: findall_no_match)
  moreover have "findall r (c # b) (cs @ a) = findall r (rev cs @ c # b) a"
  proof (rule Cons.IH)
    fix p1 p2 assume "cs = p1 @ p2" "p2 \<noteq> []"
    then show "matches r (rev p1 @ c # b, p2 @ a, None) = []"
      using Cons.prems [of "c # p1" p2] by simp
  qed
  ultimately show ?case by simp
qed

lemma findall_match:
  "matches r (b, a, None) = (b', a', Some t) # others \<Longrightarrow>
   findall r b a \<noteq> [] \<and> hd (findall r b a) = t"
  by (subst (1 2) findall.simps) simp

lemma advance_append:
  "advance (b, xs @ a, g) (length xs) = (rev xs @ b, a, g)"
  by (simp add: advance_def)

lemma takeWhile_all:
  "list_all P xs \<Longrightarrow> (a = [] \<or> \<not> P (hd a)) \<Longrightarrow> takeWhile P (xs @ a) = xs"
  by (induction xs) (auto simp: takeWhile_eq_Nil_iff neq_Nil_conv)

lemma upt_split: "k \<le> n \<Longrightarrow> [0 ..< Suc n] = [0 ..< k] @ k # [Suc k ..< Suc n]"
proof -
  assume k: "k \<le> n"
  have "[0 ..< Suc n] = [0 ..< k] @ [k ..< Suc n]"
    using upt_add_eq_append [of 0 k "Suc n - k"] k by simp
  moreover have "[k ..< Suc n] = k # [Suc k ..< Suc n]"
    using k by (simp add: upt_conv_Cons del: upt_Suc)
  ultimately show ?thesis by simp
qed

lemma seq_rep_greedy:
  "m \<le> rep_max mx P a \<Longrightarrow>
   matches (Seq (Rep m mx P) r) (b, a, g) =
     matches r (advance (b, a, g) (rep_max mx P a)) @
     concat (map (matches r) (map (advance (b, a, g)) (rev [m ..< rep_max mx P a])))"
  by simp

lemma seq_rep_lazy:
  "list_all P xs \<Longrightarrow>
   (\<And>k. k < length xs \<Longrightarrow> matches r (advance (b, xs @ a, g) k) = []) \<Longrightarrow>
   matches (Seq (RepLazy 0 None P) r) (b, xs @ a, g) =
     matches r (rev xs @ b, a, g) @
     concat (map (matches r) (map (advance (b, xs @ a, g))
        [Suc (length xs) ..< Suc (rep_max None P (xs @ a))]))"
proof -
  assume all: "list_all P xs"
    and fail: "\<And>k. k < length xs \<Longrightarrow> matches r (advance (b, xs @ a, g) k) = []"
  let ?n = "rep_max None P (xs @ a)"
  have n: "length xs \<le> ?n"
    using all by (simp add: rep_max_def takeWhile_append2 list_all_iff)
  then have upt: "[0 ..< Suc ?n] = [0 ..< length xs] @ length xs # [Suc (length xs) ..< Suc ?n]"
    by (rule upt_split)
  have "concat (map (matches r) (map (advance (b, xs @ a, g)) [0 ..< length xs])) = []"
    using fail by simp
  then show ?thesis
    by (simp add: upt advance_append del: upt_Suc)
qed

lemma rep_max_run:
  "list_all P xs \<Longrightarrow> (a = [] \<or> \<not> P (hd a)) \<Longrightarrow> rep_max None P (xs @ a) = length xs"
  by (simp add: rep_max_def takeWhile_all)

lemma rep_max_absent:
  "a = [] \<or> \<not> P (hd a) \<Longrightarrow> rep_max mx P a = 0"
  by (cases a) (auto simp: rep_max_def split: option.splits)

lemma rep_greedy_run:
  assumes "list_all P xs" "a = [] \<or> \<not> P (hd a)" "m \<le> length xs"
  shows "matches (Rep m None P) (b, xs @ a, g) =
           (rev xs @ b, a, g) # map (advance (b, xs @ a, g)) (rev [m ..< length xs])"
  using assms by (simp add: rep_max_run advance_append)

lemma rep_absent:
  "a = [] \<or> \<not> P (hd a) \<Longrightarrow> matches (Rep 0 mx P) (b, a, g) = [(b, a, g)]"
  by (simp add: rep_max_absent advance_def)

lemma rep_opt_present:
  "P c \<Longrightarrow> a = [] \<or> \<not> P (hd a) \<Longrightarrow>
   matches (Rep 0 (Some 1) P) (b, c # a, g) = [(c # b, a, g), (b, c # a, g)]"
  by (cases a) (auto simp: rep_max_def advance_def)

lemma seq_eq:
  "matches r st = xs \<Longrightarrow> matches (Seq r s) st = concat (map (matches s) xs)"
  by simp

declare matches.simps [simp del]

lemma md_url_tail:
  assumes "body \<noteq> []" "list_all md_url_char body"
  shows "\<exists>others. matches (Seq (lit (ascii ''://'')) (Rep 1 None md_url_char))
           (b, ascii ''://'' @ body @ ascii '')'' @ post, g) =
         (rev (ascii ''://'' @ body) @ b, ascii '')'' @ post, g) # others"
proof -
  have nb: "ascii '')'' @ post = [] \<or> \<not> md_url_char (hd (ascii '')'' @ post))"
    by (simp add: ascii_def md_url_char_def)
  have len: "1 \<le> length body" using assms(1) by (cases body) auto
  have "matches (Seq (lit (ascii ''://'')) (Rep 1 None md_url_char))
           (b, ascii ''://'' @ body @ ascii '')'' @ post, g) =
        matches (Rep 1 None md_url_char) (rev (ascii ''://'') @ b, body @ ascii '')'' @ post, g)"
    by (rule seq_lit)
  also have "\<dots> = (rev body @ rev (ascii ''://'') @ b, ascii '')'' @ post, g) #
      map (advance (rev (ascii ''://'') @ b, body @ ascii '')'' @ post, g)) (rev [1 ..< length body])"
    by (rule rep_greedy_run [OF assms(2) nb len])
  finally show ?thesis by simp
qed

lemma md_group_first:
  assumes "scheme = ascii ''http'' \<or> scheme = ascii ''https''"
    and "body \<noteq> []" "list_all md_url_char body"
  shows "\<exists>others. matches md_group (b, scheme @ ascii ''://'' @ body @ ascii '')'' @ post, g) =
         (rev (scheme @ ascii ''://'' @ body) @ b, ascii '')'' @ post, g) # others"
proof -
  let ?tail = "Seq (lit (ascii ''://'')) (Rep 1 None md_url_char)"
  let ?rest = "ascii ''://'' @ body @ ascii '')'' @ post"
  let ?s = "\<lambda>x::codepoint. x = 0x73"
  from assms(1) show ?thesis
  proof
    assume s: "scheme = ascii ''http''"
    have a: "?rest = [] \<or> \<not> ?s (hd ?rest)" by (simp add: ascii_def)
    have r0: "matches (Rep 0 (Some 1) ?s) (rev (ascii ''http'') @ b, ?rest, g) =
           [(rev (ascii ''http'') @ b, ?rest, g)]"
      by (rule rep_absent) (simp add: ascii_def)
    have "matches md_group (b, ascii ''http'' @ ?rest, g) =
            matches (Seq (Rep 0 (Some 1) ?s) ?tail) (rev (ascii ''http'') @ b, ?rest, g)"
      unfolding md_group_def by (rule seq_lit)
    also have "\<dots> = concat (map (matches ?tail) [(rev (ascii ''http'') @ b, ?rest, g)])"
      by (rule seq_eq [OF r0])
    finally have "matches md_group (b, ascii ''http'' @ ?rest, g) =
            matches ?tail (rev (ascii ''http'') @ b, ?rest, g)"
      by simp
    moreover obtain others where
      "matches ?tail (rev (ascii ''http'') @ b, ?rest, g) =
         (rev (ascii ''://'' @ body) @ rev (ascii ''http'') @ b, ascii '')'' @ post, g) # others"
      using md_url_tail [OF assms(2,3)] by blast
    ultimately show ?thesis using s by simp
  next
    assume s: "scheme = ascii ''https''"
    have sp: "ascii ''https'' = ascii ''http'' @ [0x73]" by (simp add: ascii_def)
    have a: "?rest = [] \<or> \<not> ?s (hd ?rest)" by (simp add: ascii_def)
    have fail: "matches ?tail (rev (ascii ''http'') @ b, 0x73 # ?rest, g) = []"
      by (rule seq_lit_fail) (simp add: ascii_def)
    have r1: "matches (Rep 0 (Some 1) ?s) (rev (ascii ''http'') @ b, 0x73 # ?rest, g) =
           [(0x73 # rev (ascii ''http'') @ b, ?rest, g), (rev (ascii ''http'') @ b, 0x73 # ?rest, g)]"
      by (rule rep_opt_present) (simp_all add: ascii_def)
    have "matches md_group (b, ascii ''http'' @ 0x73 # ?rest, g) =
            matches (Seq (Rep 0 (Some 1) ?s) ?tail) (rev (ascii ''http'') @ b, 0x73 # ?rest, g)"
      unfolding md_group_def by (rule seq_lit)
    also have "\<dots> = concat (map (matches ?tail)
        [(0x73 # rev (ascii ''http'') @ b, ?rest, g), (rev (ascii ''http'') @ b, 0x73 # ?rest, g)])"
      by (rule seq_eq [OF r1])
    finally have "matches md_group (b, ascii ''http'' @ 0x73 # ?rest, g) =
            matches ?tail (0x73 # rev (ascii ''http'') @ b, ?rest, g)"
      using fail by simp
    moreover obtain others where
      "matches ?tail (0x73 # rev (ascii ''http'') @ b, ?rest, g) =
         (rev (ascii ''://'' @ body) @ 0x73 # rev (ascii ''http'') @ b, ascii '')'' @ post, g) # others"
      using md_url_tail [OF assms(2,3)] by blast
    ultimately show ?thesis using s by (simp add: sp)
  qed
qed

lemma md_pattern_alt:
  "md_pattern =
     Seq (lit (ascii ''!['')) (Seq (RepLazy 0 None is_dot) (Seq (lit (ascii ''](''))
       (Seq (Group md_group) (lit (ascii '')'')))))"
  by (simp add: md_pattern_def md_group_def)

lemma group_first:
  "matches r (b, a, g) = (rev t @ b, a', g') # others \<Longrightarrow>
   \<exists>others'. matches (Group r) (b, a, g) = (rev t @ b, a', Some t) # others'"
  by (simp add: matches.simps)

lemma seq_first:
  "matches r st = x # xs \<Longrightarrow> matches s x = y # ys \<Longrightarrow>
   \<exists>others. matches (Seq r s) st = y # others"
  by (simp add: matches.simps)

lemma md_pattern_first:
  assumes alt: "0x5D \<notin> set alt" "0x0A \<notin> set alt"
    and scheme: "scheme = ascii ''http'' \<or> scheme = ascii ''https''"
    and body: "body \<noteq> []" "list_all md_url_char body"
  shows "\<exists>b' others.
     matches md_pattern
       (b, ascii ''!['' @ alt @ ascii '']('' @ scheme @ ascii ''://'' @ body @ ascii '')'' @ post, None) =
     (b', post, Some (scheme @ ascii ''://'' @ body)) # others"
proof -
  let ?T3 = "scheme @ ascii ''://'' @ body @ ascii '')'' @ post"
  let ?T2 = "ascii '']('' @ ?T3"
  let ?k2 = "Seq (Group md_group) (lit (ascii '')''))"
  let ?k = "Seq (lit (ascii '']('')) ?k2"
  let ?b1 = "rev (ascii ''!['') @ b"
  let ?b2 = "rev alt @ ?b1"
  let ?b3 = "rev (ascii '']('') @ ?b2"
  let ?url = "scheme @ ascii ''://'' @ body"
  have dots: "list_all is_dot alt"
    using alt(2) by (auto simp: list_all_iff is_dot_def)
  have fail: "matches ?k (advance (?b1, alt @ ?T2, None) k) = []" if "k < length alt" for k
  proof -
    have d: "drop k alt \<noteq> []" using that by simp
    then have "hd (drop k alt) \<in> set alt"
      by (metis hd_in_set in_set_dropD)
    then have "hd (drop k alt) \<noteq> 0x5D" using alt(1) by auto
    then have "\<not> prefix (ascii '']('') (drop k alt @ ?T2)"
      using d by (cases "drop k alt") (auto simp: ascii_def)
    then show ?thesis
      using that by (simp add: advance_def seq_lit_fail)
  qed
  obtain o1 where g1: "matches md_group (?b3, ?T3, None) =
      (rev ?url @ ?b3, ascii '')'' @ post, None) # o1"
    using md_group_first [OF scheme body, of ?b3 post None] by auto
  obtain o2 where g2: "matches (Group md_group) (?b3, ?T3, None) =
      (rev ?url @ ?b3, ascii '')'' @ post, Some ?url) # o2"
    using group_first [OF g1] by blast
  have g3: "matches (lit (ascii '')'')) (rev ?url @ ?b3, ascii '')'' @ post, Some ?url) =
      [(rev (ascii '')'') @ rev ?url @ ?b3, post, Some ?url)]"
    by (simp add: matches_lit)
  obtain o3 where g4: "matches ?k2 (?b3, ?T3, None) =
      (rev (ascii '')'') @ rev ?url @ ?b3, post, Some ?url) # o3"
    using seq_first [OF g2 g3] by blast
  have "matches md_pattern (b, ascii ''!['' @ alt @ ?T2, None) =
          matches (Seq (RepLazy 0 None is_dot) ?k) (?b1, alt @ ?T2, None)"
    unfolding md_pattern_alt by (rule seq_lit)
  also have "\<dots> = matches ?k (?b2, ?T2, None) @
      concat (map (matches ?k) (map (advance (?b1, alt @ ?T2, None))
        [Suc (length alt) ..< Suc (rep_max None is_dot (alt @ ?T2))]))"
    by (rule seq_rep_lazy [OF dots]) (rule fail)
  also have "matches ?k (?b2, ?T2, None) = matches ?k2 (?b3, ?T3, None)"
    by (rule seq_lit)
  finally show ?thesis
    unfolding g4 by simp
qed

lemma md_no_match_before:
  assumes "\<not> sublist (ascii ''!['') pre" "pre = p1 @ p2" "p2 \<noteq> []"
  shows "matches md_pattern (rev p1 @ b, p2 @ ascii ''!['' @ rest, None) = []"
proof -
  have "\<not> prefix (ascii ''!['') (p2 @ ascii ''!['' @ rest)"
  proof
    assume p: "prefix (ascii ''!['') (p2 @ ascii ''!['' @ rest)"
    obtain c cs where p2: "p2 = c # cs" using assms(3) by (cases p2) auto
    show False
    proof (cases cs)
      case Nil
      with p p2 show False by (simp add: ascii_def)
    next
      case (Cons d ds)
      with p p2 have "p2 = ascii ''!['' @ ds" by (simp add: ascii_def)
      then have "sublist (ascii ''!['') pre"
        using assms(2) by (auto simp: sublist_def)
      with assms(1) show False by simp
    qed
  qed
  then show ?thesis
    unfolding md_pattern_alt by (rule seq_lit_fail)
qed

lemma md_findall_link:
  assumes "\<not> sublist (ascii ''!['') pre"
    and "0x5D \<notin> set alt" "0x0A \<notin> set alt"
    and "scheme = ascii ''http'' \<or> scheme = ascii ''https''"
    and "body \<noteq> []" "list_all md_url_char body"
  shows "re_findall md_pattern
           (pre @ ascii ''!['' @ alt @ ascii '']('' @ scheme @ ascii ''://'' @ body @ ascii '')'' @ post) \<noteq> []
       \<and> hd (re_findall md_pattern
           (pre @ ascii ''!['' @ alt @ ascii '']('' @ scheme @ ascii ''://'' @ body @ ascii '')'' @ post))
         = scheme @ ascii ''://'' @ body"
proof -
  let ?rest = "alt @ ascii '']('' @ scheme @ ascii ''://'' @ body @ ascii '')'' @ post"
  have skip: "findall md_pattern [] (pre @ ascii ''!['' @ ?rest) =
              findall md_pattern (rev pre @ []) (ascii ''!['' @ ?rest)"
    by (rule findall_skip) (rule md_no_match_before [OF assms(1)])
  obtain b' others where
    "matches md_pattern (rev pre @ [], ascii ''!['' @ ?rest, None) =
       (b', post, Some (scheme @ ascii ''://'' @ body)) # others"
    using md_pattern_first [OF assms(2-6), of "rev pre @ []" post] by blast
  from findall_match [OF this] show ?thesis
    unfolding re_findall_def skip by simp
qed

lemma extract_from_content_first_match:
  "extract_from_content content =
     first_match [first_url md_pattern content, first_url data_uri_pattern content,
       strategy_b64 content, first_url url_pattern content, first_url any_url_pattern content]"
  by (simp add: extract_from_content_def extract_url_def first_url_def strategy_b64_def
      b64_accepted_def Let_def split: list.splits)

lemma extract_reply_with:
  "content \<noteq> [] \<Longrightarrow>
   extract_image_from_response (reply_with content) = Inr (extract_from_content content)"
  by (simp add: extract_image_from_response_def reply_with_def reply_content_def dict_get_def)

text \<open>
  C1. On a reply with non-empty text, \<open>_extract_image_from_response\<close> returns the result
  of the first of the five strategies that finds something, in the order Markdown image
  link, data URI, base64 heuristic, URL with an image extension, any URL; a later
  strategy is not consulted and results are not combined. In particular, when the text
  holds a Markdown image link \<open>![alt](http(s)://body)\<close> with no \<open>![\<close> before it, the
  URL of that link is returned, whatever follows the link.
\<close>

theorem extraction_priority:
  "(content \<noteq> [] \<longrightarrow>
      extract_image_from_response (reply_with content) =
        Inr (first_match
          [first_url md_pattern content, first_url data_uri_pattern content,
           strategy_b64 content, first_url url_pattern content,
           first_url any_url_pattern content])) \<and>
   (\<not> sublist (ascii ''!['') pre \<and> 0x5D \<notin> set alt \<and> 0x0A \<notin> set alt \<and>
    (scheme = ascii ''http'' \<or> scheme = ascii ''https'') \<and>
    body \<noteq> [] \<and> list_all md_url_char body \<longrightarrow>
      extract_image_from_response
        (reply_with (pre @ ascii ''!['' @ alt @ ascii '']('' @ scheme @ ascii ''://'' @ body
           @ ascii '')'' @ post)) =
        Inr (True, scheme @ ascii ''://'' @ body))"
proof (intro conjI impI)
  assume "content \<noteq> []"
  then show "extract_image_from_response (reply_with content) =
        Inr (first_match
          [first_url md_pattern content, first_url data_uri_pattern content,
           strategy_b64 content, first_url url_pattern content,
           first_url any_url_pattern content])"
    using extract_reply_with [of content] extract_from_content_first_match [of content]
    by simp
next
  let ?c = "pre @ ascii ''!['' @ alt @ ascii '']('' @ scheme @ ascii ''://'' @ body @ ascii '')'' @ post"
  assume a: "\<not> sublist (ascii ''!['') pre \<and> 0x5D \<notin> set alt \<and> 0x0A \<notin> set alt \<and>
    (scheme = ascii ''http'' \<or> scheme = ascii ''https'') \<and>
    body \<noteq> [] \<and> list_all md_url_char body"
  then have m: "re_findall md_pattern ?c \<noteq> [] \<and>
      hd (re_findall md_pattern ?c) = scheme @ ascii ''://'' @ body"
    using md_findall_link [of pre alt scheme body post] by blast
  have ne: "?c \<noteq> []" by (simp add: ascii_def)
  show "extract_image_from_response (reply_with ?c) = Inr (True, scheme @ ascii ''://'' @ body)"
    unfolding extract_reply_with [OF ne] using m
    by (simp add: extract_from_content_def Let_def)
qed

theorem extraction_priority_witness:
  "extract_image_from_response
     (reply_with (ascii ''Here: ![x](https://ex.com/a.png) also https://ex.com/b.jpg''))
   = Inr (True, ascii ''https://ex.com/a.png'')"
proof -
  have e: "ascii ''Here: ![x](https://ex.com/a.png) also https://ex.com/b.jpg'' =
      ascii ''Here: '' @ ascii ''!['' @ ascii ''x'' @ ascii '']('' @ ascii ''https'' @ ascii ''://''
        @ ascii ''ex.com/a.png'' @ ascii '')'' @ ascii '' also https://ex.com/b.jpg''"
    by (simp add: ascii_def)
  have u: "ascii ''https://ex.com/a.png'' = ascii ''https'' @ ascii ''://'' @ ascii ''ex.com/a.png''"
    by (simp add: ascii_def)
  have h: "\<not> sublist (ascii ''!['') (ascii ''Here: '') \<and> 0x5D \<notin> set (ascii ''x'') \<and>
      0x0A \<notin> set (ascii ''x'') \<and>
      (ascii ''https'' = ascii ''http'' \<or> ascii ''https'' = ascii ''https'') \<and>
      ascii ''ex.com/a.png'' \<noteq> [] \<and> list_all md_url_char (ascii ''ex.com/a.png'')"
    by (simp add: ascii_def md_url_char_def is_space_def sublist_Cons_right)
  show ?thesis
    unfolding e u
    using extraction_priority [of "[]" "ascii ''Here: ''" "ascii ''x''" "ascii ''https''"
        "ascii ''ex.com/a.png''" "ascii '' also https://ex.com/b.jpg''"] h
    by blast
qed

subsection \<open>The base64 heuristic\<close>

lemma not_b64_eq [simp]: "\<not> is_b64 0x3D"
  by (simp add: is_b64_def is_alpha_def)





















lemma sublist_left: "sublist m p \<Longrightarrow> sublist m (p @ r)"
proof -
  assume "sublist m p"
  then obtain ps ss where "p = ps @ m @ ss" by (auto simp: sublist_def)
  then have "p @ r = ps @ m @ (ss @ r)" by simp
  then show ?thesis unfolding sublist_def by blast
qed















section \<open>Verification: the request\<close>

lemma dict_has_dict_set: "dict_has (dict_set d k v) k' \<longleftrightarrow> k' = k \<or> dict_has d k'"
  by (simp add: dict_has_def map_of_dict_set)

lemma seed_size_distinct: "ascii ''seed'' \<noteq> ascii ''size''"
  "ascii ''model'' \<noteq> ascii ''seed''" "ascii ''messages'' \<noteq> ascii ''seed''"
  "ascii ''model'' \<noteq> ascii ''size''" "ascii ''messages'' \<noteq> ascii ''size''"
  by (simp_all add: ascii_def)

lemma add_optional_fields:
  assumes "\<not> dict_has base (ascii ''seed'')" "\<not> dict_has base (ascii ''size'')"
  shows "(dict_has (add_optional base model_config sz) (ascii ''seed'') \<longleftrightarrow>
            truthy (dict_get model_config (ascii ''seed'') (PInt (- 1))) \<and>
            \<not> eq_int (dict_get model_config (ascii ''seed'') (PInt (- 1))) (- 1))"
    and "(dict_has (add_optional base model_config sz) (ascii ''size'') \<longleftrightarrow> sz \<noteq> [])"
    and "dict_has (add_optional base model_config sz) (ascii ''seed'') \<Longrightarrow>
           dict_get (add_optional base model_config sz) (ascii ''seed'') dflt =
             dict_get model_config (ascii ''seed'') (PInt (- 1))"
    and "sz \<noteq> [] \<Longrightarrow> dict_get (add_optional base model_config sz) (ascii ''size'') dflt = PStr sz"
  using assms seed_size_distinct
  by (auto simp: add_optional_def Let_def dict_has_dict_set dict_get_dict_set)

text \<open>
  C8, as stated, fails: a seed of 0 differs from -1 and is still left out of the payload,
  because the test is \<open>if seed and seed != -1\<close>.
\<close>

theorem seed_zero_counterexample:
  "\<not> eq_int (dict_get [(ascii ''seed'', PInt 0)] (ascii ''seed'') (PInt (- 1))) (- 1) \<and>
   (case payload_of example_env (ascii ''a cat'') [(ascii ''seed'', PInt 0)] (ascii ''512x512'')
           PNone None of
      Inl e \<Rightarrow> False
    | Inr payload \<Rightarrow> \<not> dict_has payload (ascii ''seed''))"
  by (simp add: payload_of_def full_prompt_of_def user_message_def add_optional_def
      dict_get_def dict_has_def dict_set_def example_env_def ascii_def)

text \<open>
  C8, amended. Whenever \<open>_make_request\<close> gets as far as a payload, the payload has the
  field \<open>seed\<close> exactly when the seed of the config (-1 when absent) is truthy and is not
  -1, and then with that value; it has the field \<open>size\<close> exactly when the size string is
  not empty, and then with that string. The body that is sent is the serialisation of this
  payload.
\<close>

theorem payload_optional_fields:
  "(payload_of env prompt model_config sz strength input_image_base64 = Inr payload \<longrightarrow>
      (dict_has payload (ascii ''seed'') \<longleftrightarrow>
         truthy (dict_get model_config (ascii ''seed'') (PInt (- 1))) \<and>
         \<not> eq_int (dict_get model_config (ascii ''seed'') (PInt (- 1))) (- 1)) \<and>
      (dict_has payload (ascii ''seed'') \<longrightarrow>
         dict_get payload (ascii ''seed'') PNone =
           dict_get model_config (ascii ''seed'') (PInt (- 1))) \<and>
      (dict_has payload (ascii ''size'') \<longleftrightarrow> sz \<noteq> []) \<and>
      (sz \<noteq> [] \<longrightarrow> dict_get payload (ascii ''size'') PNone = PStr sz)) \<and>
   (prepare_request env prompt model_config sz strength input_image_base64 = Inr (req, proxy_config)
      \<longrightarrow> (\<exists>payload. payload_of env prompt model_config sz strength input_image_base64 = Inr payload
             \<and> json_dumps env (PDict payload) = Inr (req_data req)))"
proof (intro conjI impI)
  assume p: "payload_of env prompt model_config sz strength input_image_base64 = Inr payload"
  then obtain base where b: "payload = add_optional base model_config sz"
    "\<not> dict_has base (ascii ''seed'')" "\<not> dict_has base (ascii ''size'')"
    using seed_size_distinct
    by (auto simp: payload_of_def dict_has_def split: sum.splits)
  note f = add_optional_fields [OF b(2,3), where model_config = model_config and sz = sz]
  show "dict_has payload (ascii ''seed'') \<longleftrightarrow>
         truthy (dict_get model_config (ascii ''seed'') (PInt (- 1))) \<and>
         \<not> eq_int (dict_get model_config (ascii ''seed'') (PInt (- 1))) (- 1)"
    unfolding b(1) by (rule f(1))
  show "dict_has payload (ascii ''size'') \<longleftrightarrow> sz \<noteq> []"
    unfolding b(1) by (rule f(2))
  show "dict_get payload (ascii ''seed'') PNone =
           dict_get model_config (ascii ''seed'') (PInt (- 1))"
    if "dict_has payload (ascii ''seed'')"
    using that unfolding b(1) by (rule f(3))
  show "dict_get payload (ascii ''size'') PNone = PStr sz" if "sz \<noteq> []"
    using that unfolding b(1) by (rule f(4))
next
  assume "prepare_request env prompt model_config sz strength input_image_base64 =
            Inr (req, proxy_config)"
  then show "\<exists>payload. payload_of env prompt model_config sz strength input_image_base64 = Inr payload
             \<and> json_dumps env (PDict payload) = Inr (req_data req)"
    by (auto simp: prepare_request_def split: sum.splits option.splits if_splits)
qed

theorem payload_optional_fields_witness:
  "(case payload_of example_env (ascii ''a cat'')
           [(ascii ''base_url'', PStr (ascii ''https://api.example/v1'')), (ascii ''seed'', PInt 42)]
           (ascii ''512x512'') PNone None of
      Inl e \<Rightarrow> False
    | Inr payload \<Rightarrow>
        dict_has payload (ascii ''seed'') \<and> dict_get payload (ascii ''seed'') PNone = PInt 42 \<and>
        dict_has payload (ascii ''size'') \<and>
        dict_get payload (ascii ''size'') PNone = PStr (ascii ''512x512''))"
proof -
  let ?cfg = "[(ascii ''base_url'', PStr (ascii ''https://api.example/v1'')), (ascii ''seed'', PInt 42)]"
  obtain payload where p:
    "payload_of example_env (ascii ''a cat'') ?cfg (ascii ''512x512'') PNone None = Inr payload"
    by (simp add: payload_of_def full_prompt_of_def user_message_def dict_get_def example_env_def
        ascii_def)
  have seed: "dict_get ?cfg (ascii ''seed'') (PInt (- 1)) = PInt 42"
    by (simp add: dict_get_def ascii_def)
  have sz: "ascii ''512x512'' \<noteq> []" by (simp add: ascii_def)
  from payload_optional_fields [of example_env "ascii ''a cat''" ?cfg "ascii ''512x512''" PNone None
      payload] p seed sz
  have "dict_has payload (ascii ''seed'') \<and> dict_get payload (ascii ''seed'') PNone = PInt 42 \<and>
        dict_has payload (ascii ''size'') \<and>
        dict_get payload (ascii ''size'') PNone = PStr (ascii ''512x512'')"
    by simp
  then show ?thesis using p by simp
qed

lemma rep_star_head:
  "\<exists>b' a' others. matches (Rep 0 None Q) (b, a, g) = (b', a', g) # others"
  by (simp add: matches.simps advance_def)

lemma splittype_eq:
  "splittype url =
     (let scheme = takeWhile (\<lambda>c. c \<noteq> 0x2F \<and> c \<noteq> 0x3A) url
      in if scheme \<noteq> [] \<and> take 1 (drop (length scheme) url) = ascii '':''
         then Some scheme else None)"
proof -
  define P :: "codepoint \<Rightarrow> bool" where "P = (\<lambda>c. c \<noteq> 0x2F \<and> c \<noteq> 0x3A)"
  define s where "s = takeWhile P url"
  define r where "r = dropWhile P url"
  let ?R = "Seq (lit (ascii '':'')) (Rep 0 None (\<lambda>c. True))"
  let ?G = "\<lambda>(b', a', g'). (b', a', Some (rev (take (length b' - length ([]::codepoint list)) b')))"
  have url: "url = s @ r" by (simp add: s_def r_def)
  have all: "list_all P s" unfolding s_def list_all_iff by (metis set_takeWhileD)
  have stop: "r = [] \<or> \<not> P (hd r)" unfolding r_def by (metis hd_dropWhile)
  have typeprog: "typeprog = Seq (Group (Rep 1 None P)) ?R" by (simp add: typeprog_def P_def)
  have colon: "prefix (ascii '':'') r \<longleftrightarrow> take 1 (drop (length s) url) = ascii '':''"
    by (cases r) (auto simp: url ascii_def)
  have goal: "splittype url = (if s \<noteq> [] \<and> prefix (ascii '':'') r then Some s else None)"
  proof (cases "s = []")
    case True
    then have "rep_max None P url = 0" by (simp add: rep_max_def s_def)
    then have "matches (Rep 1 None P) ([], url, None) = []" by (simp add: matches.simps)
    then have "matches typeprog ([], url, None) = []" by (simp add: typeprog matches.simps)
    then show ?thesis using True by (simp add: splittype_def)
  next
    case False
    then have len: "1 \<le> length s" by (cases s) auto
    have m1: "matches (Rep 1 None P) ([], s @ r, None) =
        (rev s @ [], r, None) # map (advance ([], s @ r, None)) (rev [1 ..< length s])"
      by (rule rep_greedy_run [OF all stop len])
    have short: "matches ?R (?G (advance ([], s @ r, None) k)) = []"
      if "k \<in> set (rev [1 ..< length s])" for k
    proof -
      from that have k: "k < length s" by simp
      then have "drop k s \<noteq> []" by simp
      then obtain c cs where d: "drop k s = c # cs" by (cases "drop k s") auto
      then have "c \<in> set s" by (metis in_set_dropD list.set_intros(1))
      with all have "P c" by (simp add: list_all_iff)
      then have "\<not> prefix (ascii '':'') (drop k s @ r)" by (simp add: d ascii_def P_def)
      then show ?thesis using k by (simp add: advance_def seq_lit_fail)
    qed
    have "matches typeprog ([], url, None) =
        concat (map (matches ?R) (map ?G (matches (Rep 1 None P) ([], s @ r, None))))"
      by (simp add: typeprog url matches.simps)
    also have "\<dots> = matches ?R (rev s, r, Some s) @
        concat (map (\<lambda>k. matches ?R (?G (advance ([], s @ r, None) k))) (rev [1 ..< length s]))"
      unfolding m1 by (simp add: comp_def)
    also have "concat (map (\<lambda>k. matches ?R (?G (advance ([], s @ r, None) k))) (rev [1 ..< length s])) = []"
      using short by simp
    finally have m: "matches typeprog ([], url, None) = matches ?R (rev s, r, Some s)" by simp
    show ?thesis
    proof (cases "prefix (ascii '':'') r")
      case True
      then obtain r' where r': "r = ascii '':'' @ r'" by (auto simp: prefix_def)
      obtain b' a' others where
        "matches (Rep 0 None (\<lambda>c. True)) (rev (ascii '':'') @ rev s, r', Some s) = (b', a', Some s) # others"
        using rep_star_head by blast
      then have "matches ?R (rev s, r, Some s) = (b', a', Some s) # others"
        unfolding r' by (simp add: seq_lit)
      then show ?thesis using True False by (simp add: splittype_def m)
    next
      case no: False
      then have "matches ?R (rev s, r, Some s) = []" by (rule seq_lit_fail)
      then show ?thesis using no by (simp add: splittype_def m)
    qed
  qed
  show ?thesis unfolding goal colon by (simp add: s_def P_def Let_def)
qed


lemma url_type_eq:
  "url_type url =
     (let u = splittag (unwrap url);
          scheme = takeWhile (\<lambda>c. c \<noteq> 0x2F \<and> c \<noteq> 0x3A) u
      in if scheme \<noteq> [] \<and> take 1 (drop (length scheme) u) = ascii '':''
         then Some scheme else None)"
  by (simp add: url_type_def splittype_eq Let_def)

lemma digits_status:
  assumes "100 \<le> n" "n \<le> 999"
  shows "length (digits n) = 3"
proof -
  have a: "\<not> n < 10" "\<not> n div 10 < 10" "n div 10 div 10 < 10" using assms by auto
  show ?thesis
    by (simp add: digits.simps [of n] digits.simps [of "n div 10"]
        digits.simps [of "n div 10 div 10"] a)
qed

lemma str_int_status: "100 \<le> code \<Longrightarrow> code \<le> 999 \<Longrightarrow> length (str_int code) = 3"
  by (simp add: str_int_def digits_status)

lemma make_request_prepared:
  "prepare_request env prompt model_config sz strength input_image_base64 = Inr (req, proxy_config)
   \<Longrightarrow> make_request env prompt model_config sz strength input_image_base64 w =
     (case send_request env req proxy_config w of
        (Inl e, w') \<Rightarrow> (Inr (False, MSG_REQUEST_EXCEPTION @ take 100 (exn_text env e)), w')
      | (Inr result, w') \<Rightarrow> (Inr result, w'))"
  by (simp add: make_request_def)

lemma send_request_http_error:
  assumes "opener_for proxy_config = Inr (proxies, timeout)"
    "http_exchange env req proxies timeout w = (Inr resp, w')"
    "resp_status resp = Some code" "\<not> (200 \<le> code \<and> code < 300)"
  shows "send_request env req proxy_config w = (Inl (HTTPError code (resp_msg resp)), w')"
  using assms by (auto simp: send_request_def opener_open_def)

lemma send_request_transport:
  assumes "opener_for proxy_config = Inr (proxies, timeout)"
    "http_exchange env req proxies timeout w = (Inl e, w')"
  shows "send_request env req proxy_config w = (Inl e, w')"
  using assms by (simp add: send_request_def opener_open_def)

lemma send_request_result:
  assumes "send_request env req proxy_config w = (Inr result, w')"
  shows "\<exists>response_data. extract_image_from_response response_data = Inr result"
  using assms
  by (auto simp: send_request_def opener_open_def
      split: sum.splits prod.splits option.splits if_splits)

text \<open>
  C5, as stated, fails: \<open>_make_request\<close> can raise into the caller. The \<open>try\<close> begins at
  line 141, and what comes before it is not covered. A base URL without a scheme (here
  \<open>api.example/v1\<close>) makes the constructor of \<open>Request\<close> in line 139 raise \<open>ValueError\<close>,
  and a base URL that is no string makes \<open>base_url.rstrip\<close> in line 37 raise
  \<open>AttributeError\<close>.
\<close>

theorem make_request_raises_counterexample:
  "make_request example_env (ascii ''a cat'')
     [(ascii ''base_url'', PStr (ascii ''api.example/v1''))] (ascii ''512x512'') PNone None ()
   = (Inl ValueError, ()) \<and>
   make_request example_env (ascii ''a cat'')
     [(ascii ''base_url'', PInt 8080)] (ascii ''512x512'') PNone None ()
   = (Inl AttributeError, ())"
  by (simp add: make_request_def prepare_request_def endpoint_of_def payload_of_def
      full_prompt_of_def user_message_def dict_get_def example_env_def rstrip_def
      url_type_eq splittag_def unwrap_def strip_def is_space_def ascii_def)

text \<open>
  C5, amended. \<open>_make_request\<close> raises exactly what the preparation of the request (lines
  33 to 139, before the \<open>try\<close>) raises, and nothing is sent then. Once the request is
  built it returns a result and does not raise, and

  \<^item> a last response whose status is outside 200 to 299 gives \<open>(False, message)\<close>, where
    the message is the text of the exception branch followed by the first 100 characters
    of \<open>HTTP Error <status>: <reason>\<close>; for a status of three digits that is the whole
    status code, and then the first 86 characters of the colon, the blank and the reason
    phrase. The body of the response has no part in it;
  \<^item> an exception of the transport, and any other exception inside the \<open>try\<close>, gives
    \<open>(False, message)\<close> with the first 100 characters of the text of the exception;
  \<^item> every other result is what \<open>_extract_image_from_response\<close> returns: the branch of
    lines 168 to 171, with the text \<open>MSG_REQUEST_FAILED\<close>, is never taken, because the
    opener has turned the response into an \<open>HTTPError\<close> before.
\<close>

theorem make_request_outcomes:
  "(make_request env prompt model_config sz strength input_image_base64 w = (Inl e, w0) \<longleftrightarrow>
      prepare_request env prompt model_config sz strength input_image_base64 = Inl e \<and> w0 = w) \<and>
   (prepare_request env prompt model_config sz strength input_image_base64 = Inr (req, proxy_config)
    \<longrightarrow>
      (\<exists>result w'. make_request env prompt model_config sz strength input_image_base64 w =
           (Inr result, w')) \<and>
      (\<forall>proxies timeout resp code w'.
         opener_for proxy_config = Inr (proxies, timeout) \<and>
         http_exchange env req proxies timeout w = (Inr resp, w') \<and>
         resp_status resp = Some code \<and> \<not> (200 \<le> code \<and> code < 300) \<longrightarrow>
           make_request env prompt model_config sz strength input_image_base64 w =
             (Inr (False, MSG_REQUEST_EXCEPTION @
                     take 100 (ascii ''HTTP Error '' @ str_int code @ ascii '': '' @ resp_msg resp)),
              w') \<and>
           (100 \<le> code \<and> code \<le> 999 \<longrightarrow>
              make_request env prompt model_config sz strength input_image_base64 w =
                (Inr (False, MSG_REQUEST_EXCEPTION @ ascii ''HTTP Error '' @ str_int code @
                        take 86 (ascii '': '' @ resp_msg resp)),
                 w'))) \<and>
      (\<forall>proxies timeout e w'.
         opener_for proxy_config = Inr (proxies, timeout) \<and>
         http_exchange env req proxies timeout w = (Inl e, w') \<longrightarrow>
           make_request env prompt model_config sz strength input_image_base64 w =
             (Inr (False, MSG_REQUEST_EXCEPTION @ take 100 (exn_text env e)), w')) \<and>
      (\<forall>e w'.
         send_request env req proxy_config w = (Inl e, w') \<longrightarrow>
           make_request env prompt model_config sz strength input_image_base64 w =
             (Inr (False, MSG_REQUEST_EXCEPTION @ take 100 (exn_text env e)), w')) \<and>
      (\<forall>result w'.
         make_request env prompt model_config sz strength input_image_base64 w = (Inr result, w')
         \<longrightarrow>
           (\<exists>e. send_request env req proxy_config w = (Inl e, w') \<and>
                result = (False, MSG_REQUEST_EXCEPTION @ take 100 (exn_text env e))) \<or>
           (send_request env req proxy_config w = (Inr result, w') \<and>
            (\<exists>response_data. extract_image_from_response response_data = Inr result))))"
proof (intro conjI impI)
  show "make_request env prompt model_config sz strength input_image_base64 w = (Inl e, w0) \<longleftrightarrow>
      prepare_request env prompt model_config sz strength input_image_base64 = Inl e \<and> w0 = w"
    by (auto simp: make_request_def split: sum.splits prod.splits)
next
  assume p: "prepare_request env prompt model_config sz strength input_image_base64 =
               Inr (req, proxy_config)"
  note m = make_request_prepared [OF p, of w]
  obtain r w1 where s: "send_request env req proxy_config w = (r, w1)"
    by (cases "send_request env req proxy_config w")
  show "\<exists>result w'. make_request env prompt model_config sz strength input_image_base64 w =
        (Inr result, w')"
    unfolding m s by (cases r) auto
  have http: "make_request env prompt model_config sz strength input_image_base64 w =
             (Inr (False, MSG_REQUEST_EXCEPTION @
                     take 100 (ascii ''HTTP Error '' @ str_int code @ ascii '': '' @ resp_msg resp)),
              w')"
    if "opener_for proxy_config = Inr (proxies, timeout)"
      "http_exchange env req proxies timeout w = (Inr resp, w')"
      "resp_status resp = Some code" "\<not> (200 \<le> code \<and> code < 300)"
    for proxies timeout resp code w'
    unfolding m send_request_http_error [OF that] by (simp add: exn_text_def)
  have three: "take 100 (ascii ''HTTP Error '' @ str_int code @ ascii '': '' @ msg) =
      ascii ''HTTP Error '' @ str_int code @ take 86 (ascii '': '' @ msg)"
    if "100 \<le> code" "code \<le> 999" for code msg
    using str_int_status [OF that] by (simp add: ascii_def)
  show "\<forall>proxies timeout resp code w'.
         opener_for proxy_config = Inr (proxies, timeout) \<and>
         http_exchange env req proxies timeout w = (Inr resp, w') \<and>
         resp_status resp = Some code \<and> \<not> (200 \<le> code \<and> code < 300) \<longrightarrow>
           make_request env prompt model_config sz strength input_image_base64 w =
             (Inr (False, MSG_REQUEST_EXCEPTION @
                     take 100 (ascii ''HTTP Error '' @ str_int code @ ascii '': '' @ resp_msg resp)),
              w') \<and>
           (100 \<le> code \<and> code \<le> 999 \<longrightarrow>
              make_request env prompt model_config sz strength input_image_base64 w =
                (Inr (False, MSG_REQUEST_EXCEPTION @ ascii ''HTTP Error '' @ str_int code @
                        take 86 (ascii '': '' @ resp_msg resp)),
                 w'))"
    using http three by metis
  show "\<forall>proxies timeout e w'.
         opener_for proxy_config = Inr (proxies, timeout) \<and>
         http_exchange env req proxies timeout w = (Inl e, w') \<longrightarrow>
           make_request env prompt model_config sz strength input_image_base64 w =
             (Inr (False, MSG_REQUEST_EXCEPTION @ take 100 (exn_text env e)), w')"
    unfolding m by (auto simp: send_request_transport)
  show "\<forall>e w'.
         send_request env req proxy_config w = (Inl e, w') \<longrightarrow>
           make_request env prompt model_config sz strength input_image_base64 w =
             (Inr (False, MSG_REQUEST_EXCEPTION @ take 100 (exn_text env e)), w')"
    unfolding m by simp
  show "\<forall>result w'.
         make_request env prompt model_config sz strength input_image_base64 w = (Inr result, w')
         \<longrightarrow>
           (\<exists>e. send_request env req proxy_config w = (Inl e, w') \<and>
                result = (False, MSG_REQUEST_EXCEPTION @ take 100 (exn_text env e))) \<or>
           (send_request env req proxy_config w = (Inr result, w') \<and>
            (\<exists>response_data. extract_image_from_response response_data = Inr result))"
    unfolding m s using send_request_result [of env req proxy_config w] s
    by (cases r) auto
qed

theorem make_request_outcomes_witness:
  "make_request example_env (ascii ''a cat'')
     [(ascii ''base_url'', PStr (ascii ''https://api.example/v1/''))] (ascii ''512x512'') PNone None ()
   = (Inr (False, MSG_REQUEST_EXCEPTION @ ascii ''HTTP Error 404: Not Found''), ())"
proof -
  let ?cfg = "[(ascii ''base_url'', PStr (ascii ''https://api.example/v1/''))]"
  let ?resp = "\<lparr> resp_status = Some 404, resp_msg = ascii ''Not Found'',
                  resp_body = Inr (ascii ''secret detail'') \<rparr>"
  obtain req where p: "prepare_request example_env (ascii ''a cat'') ?cfg (ascii ''512x512'') PNone None
      = Inr (req, PNone)"
    by (simp add: prepare_request_def endpoint_of_def payload_of_def full_prompt_of_def
        user_message_def dict_get_def example_env_def rstrip_def
        url_type_eq splittag_def unwrap_def strip_def is_space_def ascii_def)
  have o: "opener_for PNone = Inr (None, PInt 600)" by (simp add: opener_for_def)
  have u: "http_exchange example_env req None (PInt 600) () = (Inr ?resp, ())"
    by (simp add: example_env_def)
  have d: "ascii ''HTTP Error '' @ str_int 404 @ take 86 (ascii '': '' @ ascii ''Not Found'') =
      ascii ''HTTP Error 404: Not Found''"
    by (simp add: str_int_def digits.simps ascii_def)
  have st: "resp_status ?resp = Some 404" "resp_msg ?resp = ascii ''Not Found''"
    by simp_all
  have n: "\<not> (200 \<le> (404::int) \<and> (404::int) < 300)" "100 \<le> (404::int) \<and> (404::int) \<le> 999"
    by simp_all
  from make_request_outcomes [of example_env "ascii ''a cat''" ?cfg "ascii ''512x512''" PNone None
      "()" _ _ req PNone] p o u st(1) n
  have "make_request example_env (ascii ''a cat'') ?cfg (ascii ''512x512'') PNone None () =
      (Inr (False, MSG_REQUEST_EXCEPTION @ ascii ''HTTP Error '' @ str_int 404 @
              take 86 (ascii '': '' @ resp_msg ?resp)), ())"
    by blast
  then show ?thesis unfolding st(2) d .
qed

end
